theory Spec2Isabelle
  imports Complex_Main "HOL-Library.Word"
begin

section \<open>TileLoader: a shallow embedding of tileloader.cpp\<close>

text \<open>
  The embedding follows \<^verbatim>\<open>src/tileloader.cpp\<close> and
  \<^verbatim>\<open>include/gazebo_satellite/tileloader.h\<close>.

  \<^item> \<^verbatim>\<open>int\<close> and \<^verbatim>\<open>unsigned int\<close> are 32-bit words. Arithmetic wraps around, also
    where C++ leaves the overflow of an \<^verbatim>\<open>int\<close> undefined; \<open>sint\<close> reads an \<^verbatim>\<open>int\<close>,
    \<open>unat\<close> an \<^verbatim>\<open>unsigned int\<close>; the comparisons of \<^verbatim>\<open>int\<close>s are the signed ones.
    A finite \<^verbatim>\<open>double\<close> that is converted to \<^verbatim>\<open>int\<close> is taken modulo \<open>2 ^ 32\<close>.
  \<^item> \<^verbatim>\<open>double\<close> is the type \<open>double\<close> below: a finite value, an infinity or NaN.
    Comparisons are those of IEEE 754, so every comparison with NaN is false. The
    arithmetic on finite values is exact: rounding is not modelled, and the theorems
    evaluate the arithmetic only at arguments where the \<^verbatim>\<open>double\<close> arithmetic is
    exact as well.
  \<^item> An exception is the left summand of the result.
  \<^item> The file system, the HTTP server and the error stream are a record \<open>World\<close> that is
    passed through every function that touches them.
  \<^item> A loop that may run forever returns an \<open>option\<close>; \<open>None\<close> means that it does not
    return.
\<close>

type_synonym int32 = "32 word"
type_synonym uint32 = "32 word"

subsection \<open>Floating point\<close>

datatype double = Finite real | PosInf | NegInf | NaN

text \<open>The comparison \<^verbatim>\<open>a < b\<close> of two \<^verbatim>\<open>double\<close>s; \<^verbatim>\<open>a > b\<close> is \<open>dless b a\<close>.\<close>

fun dless :: "double \<Rightarrow> double \<Rightarrow> bool" where
  "dless (Finite a) (Finite b) = (a < b)"
| "dless (Finite a) PosInf = True"
| "dless NegInf (Finite b) = True"
| "dless NegInf PosInf = True"
| "dless a b = False"

text \<open>
  An arithmetic expression in one \<^verbatim>\<open>double\<close>: exact on a finite value, and NaN on
  NaN. The expressions of this program are evaluated behind guards that no infinity
  passes (lemma \<open>guards_exclude_infinities\<close>), so the value given for an infinity is
  never used.
\<close>

definition finite_map :: "(real \<Rightarrow> real) \<Rightarrow> double \<Rightarrow> double" where
  "finite_map f d = (case d of Finite r \<Rightarrow> Finite (f r) | PosInf \<Rightarrow> NaN | NegInf \<Rightarrow> NaN | NaN \<Rightarrow> NaN)"

text \<open>
  \<^verbatim>\<open>int i = std::floor(d)\<close>. C++ leaves the conversion undefined when the value is
  NaN, infinite or outside \<^verbatim>\<open>int\<close>; x86 processors give the smallest \<^verbatim>\<open>int\<close> then,
  and so does the model for NaN and the infinities. A finite value is taken modulo
  \<open>2 ^ 32\<close>, which agrees with that for \<open>2 ^ 31\<close>, the only value outside \<^verbatim>\<open>int\<close> that
  the constructor can get from a finite position.
\<close>

definition floor_to_int :: "double \<Rightarrow> int32" where
  "floor_to_int d =
     (case d of Finite r \<Rightarrow> word_of_int \<lfloor>r\<rfloor> | PosInf \<Rightarrow> - 2147483648
      | NegInf \<Rightarrow> - 2147483648 | NaN \<Rightarrow> - 2147483648)"


text \<open>
  The literal \<^verbatim>\<open>85.0511\<close> is the \<^verbatim>\<open>double\<close> nearest to it, which is
  \<open>85.0511000000000052523319027386605739593505859375\<close>, a multiple of \<open>2 ^ - 46\<close>.
\<close>

definition lat_limit :: real where
  "lat_limit = 5984939097928919 / 70368744177664"

subsection \<open>Data\<close>

text \<open>\<^verbatim>\<open>class MapTile\<close>: tile coordinates, zoom and the path of the image.\<close>

datatype MapTile = MapTile (tile_x: int32) (tile_y: int32) (tile_z: int32) (imagePath: string)

text \<open>
  The members of \<^verbatim>\<open>class TileLoader\<close>, in the order of the header; the member
  \<^verbatim>\<open>zoom_\<close> of the source is \<open>m_zoom\<close> here, and so on.
\<close>

record TileLoader =
  m_latitude :: double
  m_longitude :: double
  m_zoom :: uint32
  m_blocks :: int32
  m_center_tile_x :: int32
  m_center_tile_y :: int32
  m_origin_offset_x :: double
  m_origin_offset_y :: double
  m_cache_path :: string
  m_object_uri :: string
  m_tiles :: "MapTile list"

text \<open>
  What the constructor and \<^verbatim>\<open>latLonToTileCoords\<close> throw, and the failed
  \<^verbatim>\<open>assert\<close> of the constructor.
\<close>

datatype invalid_argument =
    ZoomTooHigh uint32
  | LatitudeInvalid double
  | LongitudeInvalid double

datatype error =
    AssertionFailed
  | RuntimeError string
  | FilesystemError string
  | InvalidArgument invalid_argument

subsection \<open>Coordinate conversion\<close>

text \<open>
  \<^verbatim>\<open>latLonToTileCoords\<close>: the three guards in the order of the source, then the
  projection. \<^verbatim>\<open>unsigned int n = (1 << zoom)\<close> is the shift of the 32-bit constant 1.
\<close>

definition grid_width :: "uint32 \<Rightarrow> uint32" where
  "grid_width zoom = push_bit (unat zoom) 1"

definition latLonToTileCoords ::
  "double \<Rightarrow> double \<Rightarrow> uint32 \<Rightarrow> invalid_argument + (double \<times> double)" where
  "latLonToTileCoords lat lon zoom =
     (if zoom > 31 then Inl (ZoomTooHigh zoom)
      else if dless lat (Finite (- lat_limit)) \<or> dless (Finite lat_limit) lat
        then Inl (LatitudeInvalid lat)
      else if dless lon (Finite (- 180)) \<or> dless (Finite 180) lon
        then Inl (LongitudeInvalid lon)
      else
        let rho = pi / 180;
            n = grid_width zoom;
            x = finite_map (\<lambda>lon. real (unat n) * ((lon + 180) / 360)) lon;
            y = finite_map
                  (\<lambda>lat. let lat_rad = lat * rho
                     in real (unat n) * (1 - (ln (tan lat_rad + 1 / cos lat_rad) / pi)) / 2)
                  lat
        in Inr (x, y))"


text \<open>\<^verbatim>\<open>maxTiles\<close>: \<^verbatim>\<open>(1 << zoom_) - 1\<close> in \<^verbatim>\<open>int\<close>.\<close>

definition maxTiles :: "TileLoader \<Rightarrow> int32" where
  "maxTiles s = push_bit (unat (m_zoom s)) 1 - 1"

subsection \<open>Decimal output\<close>

text \<open>
  \<^verbatim>\<open>std::to_string\<close> and \<^verbatim>\<open>operator<<\<close> on integers: the decimal digits, most
  significant first, with a minus sign for a negative \<^verbatim>\<open>int\<close>.
\<close>

definition digit_char :: "nat \<Rightarrow> char" where
  "digit_char d = ''0123456789'' ! d"

fun digits :: "nat \<Rightarrow> string" where
  "digits n = (if n < 10 then [digit_char n] else digits (n div 10) @ [digit_char (n mod 10)])"

declare digits.simps [simp del]

definition to_string :: "int \<Rightarrow> string" where
  "to_string i = (if i < 0 then CHR ''-'' # digits (nat (- i)) else digits (nat i))"

subsection \<open>Placeholder substitution\<close>

text \<open>
  The three regular expressions of \<^verbatim>\<open>uriForTile\<close> are \<^verbatim>\<open>\{x\}\<close>, \<^verbatim>\<open>\{y\}\<close> and
  \<^verbatim>\<open>\{z\}\<close> with \<^verbatim>\<open>boost::regex::icase\<close>: an opening brace, the letter in either
  case, a closing brace. \<open>Placeholder lower upper\<close> stands for such an expression.
  \<open>regex_search\<close> is \<^verbatim>\<open>boost::regex_search\<close> on a character range: the offset of the
  leftmost match from the beginning of the range (\<^verbatim>\<open>what.position()\<close>), if there is
  one. A match is three characters long (\<^verbatim>\<open>what.length()\<close>).
\<close>

datatype regex = Placeholder char char

fun regex_search :: "regex \<Rightarrow> string \<Rightarrow> nat option" where
  "regex_search (Placeholder lo up) (a # b # c # rest) =
     (if a = CHR ''{'' \<and> (b = lo \<or> b = up) \<and> c = CHR ''}'' then Some 0
      else map_option Suc (regex_search (Placeholder lo up) (b # c # rest)))"
| "regex_search (Placeholder lo up) rest = None"

text \<open>
  \<^verbatim>\<open>str.replace(pos, len, replace)\<close>. It throws \<^verbatim>\<open>std::out_of_range\<close> when
  \<^verbatim>\<open>pos > size()\<close>; at its only call \<open>pos\<close> is the offset of a match inside a
  range of the string, so it is smaller than the size (lemma \<open>regex_search_bound\<close>).
\<close>

definition string_replace :: "string \<Rightarrow> nat \<Rightarrow> nat \<Rightarrow> string \<Rightarrow> string" where
  "string_replace str pos len replace = take pos str @ replace @ drop (pos + len) str"

text \<open>
  \<^verbatim>\<open>replaceRegex\<close>. The iterators \<^verbatim>\<open>start\<close> and \<^verbatim>\<open>end\<close> are offsets into the
  characters of \<^verbatim>\<open>str\<close>. \<^verbatim>\<open>end\<close> is taken once, before the loop, and is not
  updated when a replacement changes the length of the string; the search reads the
  characters of the current string between the two offsets. \<^verbatim>\<open>what.position()\<close> is
  relative to \<^verbatim>\<open>start\<close> and is passed to \<^verbatim>\<open>str.replace\<close> as it is;
  \<^verbatim>\<open>what[0].second\<close> is the offset just behind the match. (The replacement is taken
  to happen in place: C++ leaves the use of the iterators after a reallocation of the
  string undefined.)
\<close>

function replaceRegex_loop ::
  "regex \<Rightarrow> string \<Rightarrow> nat \<Rightarrow> nat \<Rightarrow> string \<Rightarrow> nat \<Rightarrow> string \<times> nat" where
  "replaceRegex_loop ex str start end' replace count =
     (case regex_search ex (take (end' - start) (drop start str)) of
        None \<Rightarrow> (str, count)
      | Some pos \<Rightarrow>
          replaceRegex_loop ex (string_replace str pos 3 replace) (start + pos + 3) end'
            replace (count + 1))"
  by pat_completeness auto
termination
proof (relation "measure (\<lambda>(ex, str, start, end', replace, count). end' - start)")
  show "wf (measure (\<lambda>(ex, str, start, end', replace, count). end' - start))"
    by simp
next
  fix ex :: regex and str :: string and start end' :: nat and replace :: string
    and count pos :: nat
  assume found: "regex_search ex (take (end' - start) (drop start str)) = Some pos"
  have bound: "regex_search e r = Some p \<Longrightarrow> p + 3 \<le> length r" for e r p
  proof (induction e r arbitrary: p rule: regex_search.induct)
    case (1 lo up a b c rest)
    then show ?case by (auto split: if_splits)
  qed simp_all
  from bound [OF found] have "pos + 3 \<le> end' - start"
    by simp
  then show "((ex, string_replace str pos 3 replace, start + pos + 3, end', replace, count + 1),
              (ex, str, start, end', replace, count))
             \<in> measure (\<lambda>(ex, str, start, end', replace, count). end' - start)"
    by simp
qed

declare replaceRegex_loop.simps [simp del]

definition replaceRegex :: "regex \<Rightarrow> string \<Rightarrow> string \<Rightarrow> string \<times> nat" where
  "replaceRegex ex str replace = replaceRegex_loop ex str 0 (length str) replace 0"

text \<open>\<^verbatim>\<open>uriForTile\<close>: the three substitutions on a copy of \<^verbatim>\<open>object_uri_\<close>.\<close>

definition uriForTile :: "TileLoader \<Rightarrow> int32 \<Rightarrow> int32 \<Rightarrow> string" where
  "uriForTile s x y =
     (let object = m_object_uri s;
          object = fst (replaceRegex (Placeholder CHR ''x'' CHR ''X'') object (to_string (sint x)));
          object = fst (replaceRegex (Placeholder CHR ''y'' CHR ''Y'') object (to_string (sint y)));
          object = fst (replaceRegex (Placeholder CHR ''z'' CHR ''Z'') object
                          (digits (unat (m_zoom s))))
      in object)"

subsection \<open>Cache names\<close>

definition cachedNameForTile :: "int32 \<Rightarrow> int32 \<Rightarrow> int32 \<Rightarrow> string" where
  "cachedNameForTile x y z =
     ''x'' @ to_string (sint x) @ ''_y'' @ to_string (sint y) @ ''_z'' @ to_string (sint z)
       @ ''.jpg''"

text \<open>\<^verbatim>\<open>cache_path_ / name\<close> joins the two with the directory separator.\<close>

definition cachedPathForTile :: "TileLoader \<Rightarrow> int32 \<Rightarrow> int32 \<Rightarrow> int32 \<Rightarrow> string" where
  "cachedPathForTile s x y z = m_cache_path s @ ''/'' @ cachedNameForTile x y z"

subsection \<open>The world outside\<close>

text \<open>
  The answer of \<^verbatim>\<open>cpr::Get\<close>: status code (0 when the transfer itself failed), body
  and final URL.
\<close>

record Response =
  status_code :: int
  body_text :: string
  final_url :: string

text \<open>
  \<open>files\<close> maps the path of each regular file to its content, \<open>dirs\<close> is the set of
  directories, \<open>server\<close> answers a GET of a URL, \<open>requests\<close> lists the URLs that were
  fetched and \<open>gzerr\<close> the lines written to the error stream, both oldest first.
\<close>

record World =
  files :: "string \<Rightarrow> string option"
  dirs :: "string set"
  server :: "string \<Rightarrow> Response"
  requests :: "string list"
  gzerr :: "string list"

definition fs_exists :: "World \<Rightarrow> string \<Rightarrow> bool" where
  "fs_exists w p \<longleftrightarrow> files w p \<noteq> None \<or> p \<in> dirs w"

text \<open>
  \<^verbatim>\<open>fs::create_directories\<close>: the path and every missing parent become directories; it
  throws when one of them is a regular file.
\<close>

definition path_ancestors :: "string \<Rightarrow> string list" where
  "path_ancestors p = [take n p. n \<leftarrow> [1..<length p], p ! n = CHR ''/''] @ [p]"

definition create_directories :: "World \<Rightarrow> string \<Rightarrow> error + World" where
  "create_directories w p =
     (if \<exists>a \<in> set (path_ancestors p). files w a \<noteq> None then Inl (FilesystemError p)
      else Inr (w\<lparr>dirs := dirs w \<union> set (path_ancestors p)\<rparr>))"

text \<open>
  \<^verbatim>\<open>std::fstream imgout(path, out | binary); imgout.write(...); imgout.close()\<close>: the
  file is created or truncated and receives the bytes. The stream is never tested, so
  when the file cannot be opened (here: its directory is missing) nothing happens.
\<close>

definition write_file :: "World \<Rightarrow> string \<Rightarrow> string \<Rightarrow> string \<Rightarrow> World" where
  "write_file w dir p content =
     (if dir \<in> dirs w then w\<lparr>files := (files w)(p \<mapsto> content)\<rparr> else w)"

definition cpr_Get :: "World \<Rightarrow> string \<Rightarrow> Response \<times> World" where
  "cpr_Get w u = (server w u, w\<lparr>requests := requests w @ [u]\<rparr>)"

subsection \<open>Construction\<close>

text \<open>
  The constructor. \<open>hash_fn\<close> is \<^verbatim>\<open>std::hash<std::string>\<close>, which the C++ library
  leaves to the implementation. The result is the world after the call together with
  the exception or the new object. \<^verbatim>\<open>center_tile_x_ = std::floor(x)\<close> converts a
  \<^verbatim>\<open>double\<close> to \<^verbatim>\<open>int\<close>.
\<close>

definition TileLoader_ctor ::
  "(string \<Rightarrow> nat) \<Rightarrow> World \<Rightarrow> string \<Rightarrow> double \<Rightarrow> double \<Rightarrow> uint32 \<Rightarrow> uint32
     \<Rightarrow> World \<times> (error + TileLoader)" where
  "TileLoader_ctor hash_fn w service latitude longitude zoom blocks =
     (if \<not> word_sle 0 blocks then (w, Inl AssertionFailed)
      else
        let package_path = ''.'' in
        if package_path = [] then (w, Inl (RuntimeError ''package rviz_satellite not found''))
        else
          let cache_path = package_path @ ''/gzsatellite/mapscache/'' @ digits (hash_fn service)
          in case create_directories w cache_path of
               Inl e \<Rightarrow> (w, Inl e)
             | Inr w' \<Rightarrow>
                 (case latLonToTileCoords latitude longitude zoom of
                    Inl e \<Rightarrow> (w', Inl (InvalidArgument e))
                  | Inr (x, y) \<Rightarrow>
                      let center_tile_x = floor_to_int x;
                          center_tile_y = floor_to_int y
                      in (w', Inr \<lparr>m_latitude = latitude, m_longitude = longitude,
                                   m_zoom = zoom, m_blocks = blocks,
                                   m_center_tile_x = center_tile_x,
                                   m_center_tile_y = center_tile_y,
                                   m_origin_offset_x =
                                     finite_map (\<lambda>x. x - real_of_int (sint center_tile_x)) x,
                                   m_origin_offset_y =
                                     finite_map (\<lambda>y. y - real_of_int (sint center_tile_y)) y,
                                   m_cache_path = cache_path, m_object_uri = service,
                                   m_tiles = []\<rparr>)))"

subsection \<open>Loading\<close>

definition abort :: "TileLoader \<Rightarrow> TileLoader" where
  "abort s = s\<lparr>m_tiles := []\<rparr>"

text \<open>\<^verbatim>\<open>std::max\<close> and \<^verbatim>\<open>std::min\<close> on \<^verbatim>\<open>int\<close>.\<close>

definition std_max :: "int32 \<Rightarrow> int32 \<Rightarrow> int32" where
  "std_max a b = (if word_sless a b then b else a)"

definition std_min :: "int32 \<Rightarrow> int32 \<Rightarrow> int32" where
  "std_min a b = (if word_sless b a then b else a)"

text \<open>The body of the inner loop of \<^verbatim>\<open>start\<close>, for the tile \<open>(x, y)\<close>.\<close>

definition failed_loading :: "Response \<Rightarrow> string" where
  "failed_loading r =
     ''Failed loading '' @ final_url r @ '' with code '' @ to_string (status_code r)
       @ [CHR 0x0A]"

definition start_body :: "int32 \<Rightarrow> int32 \<Rightarrow> TileLoader \<times> World \<Rightarrow> TileLoader \<times> World" where
  "start_body x y sw =
     (let (s, w) = sw;
          full_path = cachedPathForTile s x y (m_zoom s)
      in if fs_exists w full_path
         then (s\<lparr>m_tiles := m_tiles s @ [MapTile x y (m_zoom s) full_path]\<rparr>, w)
         else
           let u = uriForTile s x y;
               (r, w) = cpr_Get w u
           in if status_code r = 200
              then (s\<lparr>m_tiles := m_tiles s @ [MapTile x y (m_zoom s) full_path]\<rparr>,
                    write_file w (m_cache_path s) full_path (body_text r))
              else (s, w\<lparr>gzerr := gzerr w @ [failed_loading r]\<rparr>))"

text \<open>
  The two \<^verbatim>\<open>for\<close> loops, with the body as a parameter. The counters are \<^verbatim>\<open>int\<close>s and
  \<^verbatim>\<open>x++\<close> wraps around, so a loop whose bound is the largest \<^verbatim>\<open>int\<close> does not end:
  the result is \<open>None\<close> then.
\<close>

partial_function (option) for_x ::
  "(int32 \<Rightarrow> int32 \<Rightarrow> 'a \<Rightarrow> 'a) \<Rightarrow> int32 \<Rightarrow> int32 \<Rightarrow> int32 \<Rightarrow> 'a \<Rightarrow> 'a option" where
  "for_x body y x max_x a =
     (if word_sle x max_x then for_x body y (x + 1) max_x (body x y a) else Some a)"

partial_function (option) for_y ::
  "(int32 \<Rightarrow> int32 \<Rightarrow> 'a \<Rightarrow> 'a) \<Rightarrow> int32 \<Rightarrow> int32 \<Rightarrow> int32 \<Rightarrow> int32 \<Rightarrow> 'a \<Rightarrow> 'a option" where
  "for_y body min_x max_x y max_y a =
     (if word_sle y max_y
      then Option.bind (for_x body y min_x max_x a) (for_y body min_x max_x (y + 1) max_y)
      else Some a)"

text \<open>The range of tiles and the loops over it, as in \<^verbatim>\<open>start\<close>.\<close>

definition start_loops :: "(int32 \<Rightarrow> int32 \<Rightarrow> 'a \<Rightarrow> 'a) \<Rightarrow> TileLoader \<Rightarrow> 'a \<Rightarrow> 'a option" where
  "start_loops body s a =
     (let min_x = std_max 0 (m_center_tile_x s - m_blocks s);
          min_y = std_max 0 (m_center_tile_y s - m_blocks s);
          max_x = std_min (maxTiles s) (m_center_tile_x s + m_blocks s);
          max_y = std_min (maxTiles s) (m_center_tile_y s + m_blocks s)
      in for_y body min_x max_x min_y max_y a)"

definition start :: "TileLoader \<Rightarrow> World \<Rightarrow> (TileLoader \<times> World) option" where
  "start s w = (let s = abort s in start_loops start_body s (s, w))"

text \<open>
  The tiles that \<^verbatim>\<open>start\<close> attempts: the same loops, with a body that only records
  the tile it is called for.
\<close>

definition attempted :: "TileLoader \<Rightarrow> (int32 \<times> int32) list option" where
  "attempted s = start_loops (\<lambda>x y acc. acc @ [(x, y)]) (abort s) []"

subsection \<open>Notions of the specification\<close>

text \<open>The tiles of a rectangle, row by row: \<open>y\<close> outside, \<open>x\<close> inside, both ascending.\<close>

definition tile_grid :: "int \<Rightarrow> int \<Rightarrow> int \<Rightarrow> int \<Rightarrow> (int \<times> int) list" where
  "tile_grid min_x max_x min_y max_y =
     concat (map (\<lambda>y. map (\<lambda>x. (x, y)) [min_x..max_x]) [min_y..max_y])"

text \<open>The \<^verbatim>\<open>int\<close>s from \<open>lo\<close> to \<open>hi\<close>, and the tiles of a rectangle of them, row by row.\<close>

definition word_range :: "int32 \<Rightarrow> int32 \<Rightarrow> int32 list" where
  "word_range lo hi = map word_of_int [sint lo..sint hi]"

definition word_grid :: "int32 \<Rightarrow> int32 \<Rightarrow> int32 \<Rightarrow> int32 \<Rightarrow> (int32 \<times> int32) list" where
  "word_grid min_x max_x min_y max_y =
     concat (map (\<lambda>y. map (\<lambda>x. (x, y)) (word_range min_x max_x)) (word_range min_y max_y))"

text \<open>An integer is representable when it is a value of \<^verbatim>\<open>int\<close>.\<close>

definition representable :: "int \<Rightarrow> bool" where
  "representable i \<longleftrightarrow> - (2 ^ 31) \<le> i \<and> i < 2 ^ 31"

text \<open>
  Shorthands for a tile \<open>xy = (x, y)\<close> of a session: the path of its file in the
  cache, the URL it is fetched from, the \<^verbatim>\<open>MapTile\<close> that \<^verbatim>\<open>start\<close> appends for it,
  whether its file is in the cache and whether the server answers 200 for it.
\<close>

definition tile_path :: "TileLoader \<Rightarrow> int32 \<times> int32 \<Rightarrow> string" where
  "tile_path s xy = (case xy of (x, y) \<Rightarrow> cachedPathForTile s x y (m_zoom s))"

definition tile_url :: "TileLoader \<Rightarrow> int32 \<times> int32 \<Rightarrow> string" where
  "tile_url s xy = (case xy of (x, y) \<Rightarrow> uriForTile s x y)"

definition tile_of :: "TileLoader \<Rightarrow> int32 \<times> int32 \<Rightarrow> MapTile" where
  "tile_of s xy = (case xy of (x, y) \<Rightarrow> MapTile x y (m_zoom s) (tile_path s xy))"

definition cached :: "TileLoader \<Rightarrow> World \<Rightarrow> int32 \<times> int32 \<Rightarrow> bool" where
  "cached s w xy = fs_exists w (tile_path s xy)"

definition fetched :: "TileLoader \<Rightarrow> World \<Rightarrow> int32 \<times> int32 \<Rightarrow> bool" where
  "fetched s w xy \<longleftrightarrow> status_code (server w (tile_url s xy)) = 200"

text \<open>
  The tiles that the loop body lists, that is, appends a \<^verbatim>\<open>MapTile\<close> for: the file
  is in the cache, or the server answers 200. Whether the file was then written does
  not matter to the code.
\<close>

definition listed :: "TileLoader \<Rightarrow> World \<Rightarrow> int32 \<times> int32 \<Rightarrow> bool" where
  "listed s w xy \<longleftrightarrow> cached s w xy \<or> fetched s w xy"

text \<open>
  The specification (sections 3 and 4.3) calls a tile successfully resolved when it is
  backed by a local file: its file was in the cache, or it was fetched with status 200
  and persisted. For a run of \<^verbatim>\<open>start\<close> from the world \<open>w\<close> to the world \<open>w'\<close>:
\<close>

definition resolved :: "TileLoader \<Rightarrow> World \<Rightarrow> World \<Rightarrow> int32 \<times> int32 \<Rightarrow> bool" where
  "resolved s w w' xy \<longleftrightarrow>
     cached s w xy
     \<or> (fetched s w xy
         \<and> files w' (tile_path s xy) = Some (body_text (server w (tile_url s xy))))"

text \<open>
  The specification (sections 3 and 8) calls a fractional coordinate valid at a zoom
  when its floor is a tile index, one of \<open>0, \<dots>, 2 ^ zoom - 1\<close>.
\<close>

definition valid_index :: "uint32 \<Rightarrow> double \<Rightarrow> bool" where
  "valid_index zoom d =
     (case d of Finite r \<Rightarrow> 0 \<le> \<lfloor>r\<rfloor> \<and> \<lfloor>r\<rfloor> \<le> 2 ^ unat zoom - 1 | PosInf \<Rightarrow> False
      | NegInf \<Rightarrow> False | NaN \<Rightarrow> False)"

text \<open>
  The configuration of a session and what the constructor derives from it: every
  member but the list of tiles.
\<close>

definition configuration ::
  "TileLoader \<Rightarrow> string \<times> double \<times> double \<times> uint32 \<times> int32 \<times> int32 \<times> int32
     \<times> double \<times> double \<times> string" where
  "configuration s =
     (m_object_uri s, m_latitude s, m_longitude s, m_zoom s, m_blocks s,
      m_center_tile_x s, m_center_tile_y s, m_origin_offset_x s, m_origin_offset_y s,
      m_cache_path s)"

text \<open>
  No \<^verbatim>\<open>int\<close> computation of \<^verbatim>\<open>start\<close> overflows: the zoom is at most 31, the four
  sums and differences of a centre coordinate and the block radius are representable,
  and the upper bounds of the two loops are below the largest \<^verbatim>\<open>int\<close>, so that the
  counters can pass them.
\<close>

definition overflow_free :: "TileLoader \<Rightarrow> bool" where
  "overflow_free s \<longleftrightarrow>
     m_zoom s \<le> 31
     \<and> representable (sint (m_center_tile_x s) - sint (m_blocks s))
     \<and> representable (sint (m_center_tile_x s) + sint (m_blocks s))
     \<and> representable (sint (m_center_tile_y s) - sint (m_blocks s))
     \<and> representable (sint (m_center_tile_y s) + sint (m_blocks s))
     \<and> min (2 ^ unat (m_zoom s) - 1) (sint (m_center_tile_x s) + sint (m_blocks s)) < 2 ^ 31 - 1
     \<and> min (2 ^ unat (m_zoom s) - 1) (sint (m_center_tile_y s) + sint (m_blocks s)) < 2 ^ 31 - 1"

subsection \<open>Sessions and worlds for the examples\<close>

text \<open>
  A session centred on latitude 0 and longitude 0, which is the corner of a tile at
  every zoom above 0; the other members are given.
\<close>

definition session ::
  "string \<Rightarrow> string \<Rightarrow> uint32 \<Rightarrow> int32 \<Rightarrow> int32 \<Rightarrow> int32 \<Rightarrow> TileLoader" where
  "session service cache zoom cx cy blocks =
     \<lparr>m_latitude = Finite 0, m_longitude = Finite 0, m_zoom = zoom, m_blocks = blocks,
      m_center_tile_x = cx, m_center_tile_y = cy, m_origin_offset_x = Finite 0,
      m_origin_offset_y = Finite 0, m_cache_path = cache, m_object_uri = service,
      m_tiles = []\<rparr>"

text \<open>A hash function for the examples, and a server that has no tile at all.\<close>

definition length_hash :: "string \<Rightarrow> nat" where
  "length_hash str = length str"

definition not_found :: "string \<Rightarrow> Response" where
  "not_found u = \<lparr>status_code = 404, body_text = [], final_url = u\<rparr>"

definition empty_world :: "(string \<Rightarrow> Response) \<Rightarrow> World" where
  "empty_world srv = \<lparr>files = Map.empty, dirs = {}, server = srv, requests = [], gzerr = []\<rparr>"

text \<open>
  A session at zoom 1 around the tile \<open>(0, 0)\<close> with one block; a server that has
  the tile \<open>(1, 0)\<close> only; a world in which the tile \<open>(0, 0)\<close> is in the cache.
\<close>

definition example_session :: TileLoader where
  "example_session = session ''http://t/{z}/{x}/{y}'' ''c'' 1 0 0 1"

definition tile_server :: "string \<Rightarrow> Response" where
  "tile_server u =
     (if u = ''http://t/1/1/0'' then \<lparr>status_code = 200, body_text = ''B'', final_url = u\<rparr>
      else not_found u)"

text \<open>A server that has every tile.\<close>

definition ok_server :: "string \<Rightarrow> Response" where
  "ok_server u = \<lparr>status_code = 200, body_text = ''B'', final_url = u\<rparr>"

definition cached_world :: World where
  "cached_world =
     \<lparr>files = [''c/x0_y0_z1.jpg'' \<mapsto> ''A''], dirs = {''c''}, server = tile_server,
      requests = [], gzerr = []\<rparr>"

text \<open>
  The session that the constructor makes at latitude 0 and longitude 180, on the east
  edge of the map, at zoom 1 and with no blocks around the centre tile.
\<close>

definition edge_session :: TileLoader where
  "edge_session = (session ''u'' ''./gzsatellite/mapscache/1'' 1 2 1 0)\<lparr>m_longitude := Finite 180\<rparr>"

section \<open>Properties\<close>

subsection \<open>The shift\<close>

lemma unat_le_31: "(zoom :: uint32) \<le> 31 \<Longrightarrow> unat zoom \<le> 31"
  by (simp add: word_le_nat_alt)

lemma pow2_lt_32: "n \<le> 31 \<Longrightarrow> (2::nat) ^ n < 2 ^ 32"
  by (rule power_strict_increasing) simp_all

lemma unat_shl1: "n \<le> 31 \<Longrightarrow> unat (push_bit n 1 :: 32 word) = 2 ^ n"
proof -
  assume "n \<le> 31"
  then have lt: "(2::nat) ^ n < 2 ^ 32" by (rule pow2_lt_32)
  have "(push_bit n 1 :: 32 word) = of_nat (2 ^ n)" by (simp add: push_bit_eq_mult)
  then have "unat (push_bit n 1 :: 32 word) = 2 ^ n mod 2 ^ 32"
    by (simp only: unat_of_nat) simp
  then show ?thesis using lt by simp
qed

text \<open>
  For \<open>n = 31\<close> the shift gives the smallest \<^verbatim>\<open>int\<close>, and the subtraction wraps around
  to the largest one, which is \<open>2 ^ 31 - 1\<close>.
\<close>

lemma sint_shl1_minus1:
  assumes "n \<le> 31"
  shows "sint (push_bit n 1 - 1 :: 32 word) = 2 ^ n - 1"
proof -
  have w: "(push_bit n 1 - 1 :: 32 word) = mask n"
    by (simp add: mask_eq_exp_minus_1 push_bit_eq_mult)
  have "uint (mask n :: 32 word) = mask (min 32 n)"
    by (simp only: uint_mask_eq) simp
  then have u: "uint (mask n :: 32 word) = 2 ^ n - 1"
    using assms by (simp only: mask_eq_exp_minus_1 min_def) simp
  have "(2::int) ^ n \<le> 2 ^ 31" using assms by (intro power_increasing) simp_all
  moreover have "(0::int) < 2 ^ n" by simp
  ultimately have r: "- (2 ^ 31) \<le> (2::int) ^ n - 1" "(2::int) ^ n - 1 < 2 ^ 31"
    by linarith+
  have "sint (mask n :: 32 word) = signed_take_bit 31 (uint (mask n :: 32 word))"
    by (simp add: sint_uint)
  also have "\<dots> = 2 ^ n - 1"
    unfolding u using r by (simp only: signed_take_bit_int_eq_self)
  finally show ?thesis using w by simp
qed

lemma unat_grid_width: "zoom \<le> 31 \<Longrightarrow> unat (grid_width zoom) = 2 ^ unat zoom"
  unfolding grid_width_def by (rule unat_shl1) (rule unat_le_31)

lemma sint_maxTiles: "m_zoom s \<le> 31 \<Longrightarrow> sint (maxTiles s) = 2 ^ unat (m_zoom s) - 1"
  unfolding maxTiles_def by (rule sint_shl1_minus1) (rule unat_le_31)

text \<open>
  C7. For every zoom from 0 to 31 the largest tile index used for clamping,
  \<^verbatim>\<open>maxTiles()\<close>, is \<open>2 ^ zoom - 1\<close>, and the grid width \<open>n\<close> of
  \<^verbatim>\<open>latLonToTileCoords\<close> is \<open>2 ^ zoom\<close>; both come from the 32-bit shift
  \<^verbatim>\<open>1 << zoom\<close>.
\<close>

theorem shift_gives_power_of_two:
  "m_zoom s \<le> 31 \<Longrightarrow>
     sint (maxTiles s) = 2 ^ unat (m_zoom s) - 1
     \<and> unat (grid_width (m_zoom s)) = 2 ^ unat (m_zoom s)"
  by (simp add: sint_maxTiles unat_grid_width)

theorem shift_gives_power_of_two_witness:
  "sint (maxTiles (session ''u'' ''c'' 31 0 0 1)) = 2147483647
   \<and> unat (grid_width 31) = 2147483648"
  using shift_gives_power_of_two [of "session ''u'' ''c'' 31 0 0 1"]
  by (simp add: session_def)

subsection \<open>The guards of the conversion\<close>

text \<open>
  The bound of the latitude is the \<^verbatim>\<open>double\<close> that the literal \<^verbatim>\<open>85.0511\<close> denotes. It is
  a little above the decimal number, and the \<^verbatim>\<open>double\<close> before it is below.
\<close>

lemma lat_limit_value:
  "85.0511 < lat_limit" "lat_limit < 85.0511 + 1 / 10 ^ 14" "lat_limit - 1 / 2 ^ 46 < 85.0511"
  by (simp_all add: lat_limit_def)

lemma dless_NaN: "\<not> dless NaN d" "\<not> dless d NaN"
  by (cases d; simp)+

text \<open>Only finite values and NaN get behind the guards.\<close>

lemma guards_exclude_infinities:
  assumes "\<not> isl (latLonToTileCoords lat lon zoom)"
  shows "lat \<noteq> PosInf \<and> lat \<noteq> NegInf \<and> lon \<noteq> PosInf \<and> lon \<noteq> NegInf"
  using assms by (auto simp add: latLonToTileCoords_def Let_def split: if_splits)

text \<open>
  C4. \<^verbatim>\<open>latLonToTileCoords(lat, lon, zoom)\<close> throws \<^verbatim>\<open>std::invalid_argument\<close> if and
  only if one of its five comparisons holds: \<open>zoom > 31\<close>, \<open>lat < -85.0511\<close>,
  \<open>lat > 85.0511\<close>, \<open>lon < -180\<close> or \<open>lon > 180\<close>, where \<^verbatim>\<open>85.0511\<close> is the \<^verbatim>\<open>double\<close>
  \<open>lat_limit\<close>. For finite arguments that is what the specification says, and it
  throws for zoom 32, for latitude 90 and for longitude 200 whatever the other
  arguments are. A latitude or longitude that is NaN is inside neither interval, but
  every comparison with it is false: the function does not throw, it returns NaN for
  the coordinate.
\<close>

theorem latLonToTileCoords_accepts_nan:
  "(isl (latLonToTileCoords lat lon zoom) \<longleftrightarrow>
      (zoom > 31 \<or> dless lat (Finite (- lat_limit)) \<or> dless (Finite lat_limit) lat
       \<or> dless lon (Finite (- 180)) \<or> dless (Finite 180) lon))
   \<and> (isl (latLonToTileCoords (Finite a) (Finite b) zoom) \<longleftrightarrow>
      (zoom > 31 \<or> a < - lat_limit \<or> a > lat_limit \<or> b < - 180 \<or> b > 180))
   \<and> isl (latLonToTileCoords lat lon 32)
   \<and> isl (latLonToTileCoords (Finite 90) lon zoom)
   \<and> isl (latLonToTileCoords lat (Finite 200) zoom)
   \<and> latLonToTileCoords NaN (Finite 0) 0 = Inr (Finite (1 / 2), NaN)
   \<and> latLonToTileCoords (Finite 0) NaN 0 = Inr (NaN, Finite (1 / 2))"
proof -
  have "dless (Finite lat_limit) (Finite 90)" by (simp add: lat_limit_def)
  moreover have "dless (Finite 180) (Finite 200)" by simp
  moreover have "latLonToTileCoords NaN (Finite 0) 0 = Inr (Finite (1 / 2), NaN)"
    by (simp add: latLonToTileCoords_def Let_def grid_width_def finite_map_def)
  moreover have "latLonToTileCoords (Finite 0) NaN 0 = Inr (NaN, Finite (1 / 2))"
    by (simp add: latLonToTileCoords_def Let_def grid_width_def finite_map_def lat_limit_def)
  ultimately show ?thesis
    by (simp add: latLonToTileCoords_def Let_def)
qed

subsection \<open>The exception leaves insideCentreTile\<close>



subsection \<open>Substitution of the placeholders\<close>

lemma regex_search_bound: "regex_search ex r = Some p \<Longrightarrow> p + 3 \<le> length r"
proof (induction ex r arbitrary: p rule: regex_search.induct)
  case (1 lo up a b c rest)
  then show ?case by (auto split: if_splits)
qed simp_all

text \<open>
  C5. \<^verbatim>\<open>uriForTile\<close> is meant to replace every occurrence of \<open>{x}\<close>, \<open>{y}\<close> and
  \<open>{z}\<close>, in either case, by the decimal tile coordinates. With one occurrence of each
  it does: the template of the specification gives \<open>http://x/2/3/5.png\<close>, in lower and
  in upper case. A second occurrence of a placeholder is not replaced properly: the
  second match is found at an offset relative to the end of the first, and that offset
  is used from the beginning of the string, so \<open>{x}/{x}\<close> with \<open>x = 123\<close> becomes
  \<open>1123{x}\<close> instead of \<open>123/123\<close>; and the end of the search range is the end of the
  string before the first replacement, so \<open>{x}{x}\<close> with \<open>x = 1\<close> becomes \<open>1{x}\<close>
  instead of \<open>11\<close>.
\<close>

theorem uriForTile_repeated_placeholder:
  "uriForTile (session ''http://x/{z}/{x}/{y}.png'' ''c'' 2 0 0 0) 3 5 = ''http://x/2/3/5.png''
   \<and> uriForTile (session ''http://x/{Z}/{X}/{Y}.png'' ''c'' 2 0 0 0) 3 5 = ''http://x/2/3/5.png''
   \<and> uriForTile (session ''{x}/{x}'' ''c'' 7 0 0 0) 123 5 = ''1123{x}''
   \<and> uriForTile (session ''{x}{x}'' ''c'' 1 0 0 0) 1 0 = ''1{x}''"
  by code_simp

subsection \<open>A failed construction\<close>

lemma example_cache_path:
  "path_ancestors (''./gzsatellite/mapscache/'' @ digits (length_hash ''u'')) =
     [''.'', ''./gzsatellite'', ''./gzsatellite/mapscache'', ''./gzsatellite/mapscache/1'']"
  by code_simp

lemma example_digits: "digits (length_hash ''u'') = ''1''"
  by code_simp

lemma example_blocks: "word_sle 0 (1 :: int32)"
  by code_simp

lemma ctor_zoom_32:
  "TileLoader_ctor length_hash (empty_world not_found) ''u'' (Finite 0) (Finite 0) 32 1 =
     ((empty_world not_found)
        \<lparr>dirs := {''.'', ''./gzsatellite'', ''./gzsatellite/mapscache'',
                  ''./gzsatellite/mapscache/1''}\<rparr>,
      Inl (InvalidArgument (ZoomTooHigh 32)))"
  using example_cache_path example_blocks
  by (simp add: TileLoader_ctor_def create_directories_def empty_world_def
      latLonToTileCoords_def Let_def)

text \<open>
  The construction of a session at latitude 0, longitude 0 and zoom 1 succeeds; the
  centre tile is \<open>(1, 1)\<close>.
\<close>

lemma ctor_zoom_1:
  "word_sle 0 blocks \<Longrightarrow>
   TileLoader_ctor length_hash (empty_world not_found) ''u'' (Finite 0) (Finite 0) 1 blocks =
     ((empty_world not_found)
        \<lparr>dirs := {''.'', ''./gzsatellite'', ''./gzsatellite/mapscache'',
                  ''./gzsatellite/mapscache/1''}\<rparr>,
      Inr (session ''u'' ''./gzsatellite/mapscache/1'' 1 1 1 blocks))"
  using example_cache_path example_digits
  by (simp add: TileLoader_ctor_def create_directories_def empty_world_def
      latLonToTileCoords_def Let_def grid_width_def session_def finite_map_def
      floor_to_int_def lat_limit_def)

text \<open>
  C8, as the specification has it, fails: the constructor creates the cache directory
  before it checks zoom, latitude and longitude, so a construction that fails with
  zoom 32 leaves the directory behind.
\<close>

theorem ctor_failure_leaves_directory:
  "snd (TileLoader_ctor length_hash (empty_world not_found) ''u'' (Finite 0) (Finite 0) 32 1)
     = Inl (InvalidArgument (ZoomTooHigh 32))
   \<and> ''./gzsatellite/mapscache/1''
        \<in> dirs (fst (TileLoader_ctor length_hash (empty_world not_found) ''u''
                        (Finite 0) (Finite 0) 32 1))
   \<and> ''./gzsatellite/mapscache/1'' \<notin> dirs (empty_world not_found)"
  by (simp add: ctor_zoom_32) (simp add: empty_world_def)

text \<open>
  C8, amended. When zoom, latitude or longitude is invalid, so that
  \<^verbatim>\<open>latLonToTileCoords\<close> throws \<open>e\<close>, the construction fails and there is no object.
  What the caller gets is decided in the order of the constructor: the failed
  assertion when the block radius is negative as an \<^verbatim>\<open>int\<close>, with the world as it
  was; the error of \<^verbatim>\<open>create_directories\<close> when a regular file is in the way of the
  cache directory, with the world as it was; and otherwise the
  \<^verbatim>\<open>std::invalid_argument\<close> \<open>e\<close>, with a world that differs from the one before the
  call in the directories only: the cache directory of the source and its parents
  exist now. No file is written, no request is sent and nothing is logged.
\<close>

theorem ctor_configuration_error:
  "latLonToTileCoords latitude longitude zoom = Inl e \<Longrightarrow>
     TileLoader_ctor hash_fn w service latitude longitude zoom blocks =
       (if \<not> word_sle 0 blocks then (w, Inl AssertionFailed)
        else if \<exists>a \<in> set (path_ancestors
                     (''./gzsatellite/mapscache/'' @ digits (hash_fn service))).
                  files w a \<noteq> None
        then (w, Inl (FilesystemError (''./gzsatellite/mapscache/'' @ digits (hash_fn service))))
        else (w\<lparr>dirs := dirs w \<union>
                   set (path_ancestors (''./gzsatellite/mapscache/'' @ digits (hash_fn service)))\<rparr>,
              Inl (InvalidArgument e)))"
  by (simp add: TileLoader_ctor_def create_directories_def Let_def)

theorem ctor_configuration_error_witness:
  "TileLoader_ctor length_hash (empty_world not_found) ''u'' (Finite 0) (Finite 0) 32 1 =
     ((empty_world not_found)
        \<lparr>dirs := dirs (empty_world not_found) \<union>
           {''.'', ''./gzsatellite'', ''./gzsatellite/mapscache'',
            ''./gzsatellite/mapscache/1''}\<rparr>,
      Inl (InvalidArgument (ZoomTooHigh 32)))"
proof -
  have thrown: "latLonToTileCoords (Finite 0) (Finite 0) 32 = Inl (ZoomTooHigh 32)"
    by (simp add: latLonToTileCoords_def)
  from ctor_configuration_error
    [OF thrown, of length_hash "empty_world not_found" "''u''" 1]
  show ?thesis
    using example_cache_path
    by (simp add: example_blocks empty_world_def)
qed

subsection \<open>The loops of start\<close>

lemma sint_in_range_add:
  fixes a b :: int32
  assumes "- (2 ^ 31) \<le> sint a + sint b" "sint a + sint b < 2 ^ 31"
  shows "sint (a + b) = sint a + sint b"
  using assms by (simp add: sint_word_add signed_take_bit_int_eq_self)

lemma sint_in_range_diff:
  fixes a b :: int32
  assumes "- (2 ^ 31) \<le> sint a - sint b" "sint a - sint b < 2 ^ 31"
  shows "sint (a - b) = sint a - sint b"
  using assms by (simp add: sint_word_diff signed_take_bit_int_eq_self)

lemma sint_succ:
  fixes x :: int32
  assumes "sint x < 2 ^ 31 - 1"
  shows "sint (x + 1) = sint x + 1"
proof -
  have "- (2 ^ 31) \<le> sint x" using sint_ge [of x] by simp
  with assms show ?thesis by (simp add: sint_in_range_add)
qed

lemma sint_std_max: "sint (std_max a b) = max (sint a) (sint b)"
  by (simp add: std_max_def word_sless_alt max_def)

lemma sint_std_min: "sint (std_min a b) = min (sint a) (sint b)"
  by (simp add: std_min_def word_sless_alt min_def)

lemma for_x_run:
  assumes "sint max_x < 2 ^ 31 - 1"
  shows "for_x body y x max_x a = Some (fold (\<lambda>x. body x y) (word_range x max_x) a)"
proof (induction "nat (sint max_x + 1 - sint x)" arbitrary: x a)
  case 0
  then have "\<not> word_sle x max_x" by (simp add: word_sle_eq)
  moreover from 0 have "[sint x..sint max_x] = []" by simp
  ultimately show ?case by (subst for_x.simps) (simp add: word_range_def)
next
  case (Suc n)
  then have le: "sint x \<le> sint max_x" by linarith
  with assms have s: "sint (x + 1) = sint x + 1" by (simp add: sint_succ)
  with Suc have "n = nat (sint max_x + 1 - sint (x + 1))" by linarith
  then have ih: "for_x body y (x + 1) max_x (body x y a)
      = Some (fold (\<lambda>x. body x y) (word_range (x + 1) max_x) (body x y a))"
    by (rule Suc.hyps(1))
  have "[sint x..sint max_x] = sint x # [sint (x + 1)..sint max_x]"
    using le s by (simp add: upto_rec1)
  then have "word_range x max_x = x # word_range (x + 1) max_x"
    by (simp add: word_range_def)
  with le ih show ?case by (subst for_x.simps) (simp add: word_sle_eq)
qed

lemma for_y_run:
  assumes "sint max_x < 2 ^ 31 - 1" "sint max_y < 2 ^ 31 - 1"
  shows "for_y body min_x max_x y max_y a
    = Some (fold (\<lambda>y. fold (\<lambda>x. body x y) (word_range min_x max_x)) (word_range y max_y) a)"
proof (induction "nat (sint max_y + 1 - sint y)" arbitrary: y a)
  case 0
  then have "\<not> word_sle y max_y" by (simp add: word_sle_eq)
  moreover from 0 have "[sint y..sint max_y] = []" by simp
  ultimately show ?case by (subst for_y.simps) (simp add: word_range_def)
next
  case (Suc n)
  then have le: "sint y \<le> sint max_y" by linarith
  with assms have s: "sint (y + 1) = sint y + 1" by (simp add: sint_succ)
  with Suc have "n = nat (sint max_y + 1 - sint (y + 1))" by linarith
  then have ih: "\<And>a. for_y body min_x max_x (y + 1) max_y a
    = Some (fold (\<lambda>y. fold (\<lambda>x. body x y) (word_range min_x max_x)) (word_range (y + 1) max_y) a)"
    by (rule Suc.hyps(1))
  have "[sint y..sint max_y] = sint y # [sint (y + 1)..sint max_y]"
    using le s by (simp add: upto_rec1)
  then have "word_range y max_y = y # word_range (y + 1) max_y"
    by (simp add: word_range_def)
  with le ih show ?case
    by (subst for_y.simps) (simp add: word_sle_eq for_x_run [OF assms(1)])
qed

lemma fold_rows:
  "fold (\<lambda>y. fold (\<lambda>x. body x y) xs) ys a
     = fold (\<lambda>(x, y). body x y) (concat (map (\<lambda>y. map (\<lambda>x. (x, y)) xs) ys)) a"
proof (induction ys arbitrary: a)
  case Nil
  show ?case by simp
next
  case (Cons y ys)
  have "fold (\<lambda>(x, y). body x y) (map (\<lambda>x. (x, y)) xs) a = fold (\<lambda>x. body x y) xs a" for a
    by (induction xs arbitrary: a) simp_all
  with Cons show ?case by simp
qed

lemma for_y_grid:
  assumes "sint max_x < 2 ^ 31 - 1" "sint max_y < 2 ^ 31 - 1"
  shows "for_y body min_x max_x min_y max_y a
    = Some (fold (\<lambda>(x, y). body x y) (word_grid min_x max_x min_y max_y) a)"
  by (simp add: for_y_run [OF assms] fold_rows word_grid_def)

lemma sint_word_of_int_range:
  assumes "- (2 ^ 31) \<le> i" "i < 2 ^ 31"
  shows "sint (word_of_int i :: int32) = i"
  using assms by (simp add: sint_sbintrunc' signed_take_bit_int_eq_self)

lemma map_sint_word_range: "map sint (word_range lo hi) = [sint lo..sint hi]"
proof -
  have "sint (word_of_int i :: int32) = i" if "i \<in> set [sint lo..sint hi]" for i
  proof (rule sint_word_of_int_range)
    from that have "sint lo \<le> i" "i \<le> sint hi" by simp_all
    with sint_ge [of lo] sint_lt [of hi] show "- (2 ^ 31) \<le> i" "i < 2 ^ 31" by simp_all
  qed
  then have "map (\<lambda>i. sint (word_of_int i :: int32)) [sint lo..sint hi] = [sint lo..sint hi]"
    by (intro map_idI) simp
  then show ?thesis by (simp add: word_range_def comp_def)
qed

lemma map_sint_word_grid:
  "map (\<lambda>(x, y). (sint x, sint y)) (word_grid min_x max_x min_y max_y)
     = tile_grid (sint min_x) (sint max_x) (sint min_y) (sint max_y)"
proof -
  have "map (\<lambda>(x, y). (sint x, sint y)) (concat (map (\<lambda>y. map (\<lambda>x. (x, y)) xs) ys))
      = concat (map (\<lambda>y. map (\<lambda>x. (x, y)) (map sint xs)) (map sint ys))" for xs ys :: "int32 list"
    by (simp add: map_concat comp_def)
  then show ?thesis
    by (simp only: word_grid_def tile_grid_def map_sint_word_range)
qed

lemma fold_record: "fold (\<lambda>(x, y) acc. acc @ [(x, y)]) g acc = acc @ g"
  by (induction g arbitrary: acc) auto

lemma set_tile_grid:
  "set (tile_grid a b c d) = {(x, y). a \<le> x \<and> x \<le> b \<and> c \<le> y \<and> y \<le> d}"
  by (auto simp add: tile_grid_def)

lemma start_loops_grid:
  fixes s :: TileLoader
  defines "min_x \<equiv> std_max 0 (m_center_tile_x s - m_blocks s)"
    and "min_y \<equiv> std_max 0 (m_center_tile_y s - m_blocks s)"
    and "max_x \<equiv> std_min (maxTiles s) (m_center_tile_x s + m_blocks s)"
    and "max_y \<equiv> std_min (maxTiles s) (m_center_tile_y s + m_blocks s)"
  assumes "sint max_x < 2 ^ 31 - 1" "sint max_y < 2 ^ 31 - 1"
  shows "start_loops body s a = Some (fold (\<lambda>(x, y). body x y) (word_grid min_x max_x min_y max_y) a)"
  using assms(5,6) unfolding start_loops_def Let_def min_x_def min_y_def max_x_def max_y_def
  by (rule for_y_grid)

subsection \<open>Loops that may not end\<close>

lemmas for_x_raw_induct =
  for_x.raw_induct [of P "((((body, y), x), max_x), a)" r, simplified] for P body y x max_x a r

lemma for_x_preserves:
  assumes inv: "\<And>x y a. f (body x y a) = f a"
    and run: "for_x body y x max_x a = Some r"
  shows "f r = f a"
proof -
  define Q where "Q b c d \<longleftrightarrow> (b = body \<longrightarrow> f d = f c)" for b c d
  have "Q body a r"
  proof (rule for_x_raw_induct [where P = "\<lambda>b _ _ _ c d. Q b c d", OF _ run])
    fix g b y x max_x c d
    assume ih: "\<And>b y x max_x c d. g b y x max_x c = Some d \<Longrightarrow> Q b c d"
      and eq: "(if word_sle x max_x then g b y (x + 1) max_x (b x y c) else Some c) = Some d"
    show "Q b c d"
    proof (cases "word_sle x max_x")
      case True
      with eq have "g b y (x + 1) max_x (b x y c) = Some d" by simp
      then have "Q b (b x y c) d" by (rule ih)
      then show ?thesis using inv by (simp add: Q_def)
    next
      case False
      with eq show ?thesis by (simp add: Q_def)
    qed
  qed
  then show ?thesis by (simp add: Q_def)
qed

lemma for_y_preserves:
  assumes inv: "\<And>x y a. f (body x y a) = f a"
    and run: "for_y body min_x max_x y max_y a = Some r"
  shows "f r = f a"
proof -
  define Q where "Q b c d \<longleftrightarrow> (b = body \<longrightarrow> f d = f c)" for b c d
  have "Q body a r"
  proof (rule for_y.raw_induct [where P = "\<lambda>b _ _ _ _ c d. Q b c d", OF _ run])
    fix g b min_x max_x y max_y c d
    assume ih: "\<And>b min_x max_x y max_y c d. g b min_x max_x y max_y c = Some d \<Longrightarrow> Q b c d"
      and eq: "(if word_sle y max_y
        then Option.bind (for_x b y min_x max_x c) (g b min_x max_x (y + 1) max_y)
        else Some c) = Some d"
    show "Q b c d"
    proof (cases "word_sle y max_y")
      case True
      with eq obtain c' where x: "for_x b y min_x max_x c = Some c'"
        and y: "g b min_x max_x (y + 1) max_y c' = Some d"
        by (auto simp add: bind_eq_Some_conv)
      from y have "Q b c' d" by (rule ih)
      moreover have "f c' = f c" if "b = body"
      proof -
        from x that have "for_x body y min_x max_x c = Some c'" by simp
        then show ?thesis by (rule for_x_preserves [of f body, OF inv])
      qed
      ultimately show ?thesis by (simp add: Q_def)
    next
      case False
      with eq show ?thesis by (simp add: Q_def)
    qed
  qed
  then show ?thesis by (simp add: Q_def)
qed

lemma for_x_int_max: "for_x body y x 2147483647 a = None"
proof (cases "for_x body y x 2147483647 a")
  case None
  then show ?thesis .
next
  case (Some r)
  have "(2147483647 :: int32) \<noteq> 2147483647"
  proof (rule for_x_raw_induct [where P = "\<lambda>_ _ _ m _ _. m \<noteq> 2147483647", OF _ Some])
    fix g b y x and max_x :: int32 and c d
    assume ih: "\<And>b y x max_x c d. g b y x max_x c = Some d \<Longrightarrow> max_x \<noteq> 2147483647"
      and eq: "(if word_sle x max_x then g b y (x + 1) max_x (b x y c) else Some c) = Some d"
    show "max_x \<noteq> 2147483647"
    proof
      assume m: "max_x = 2147483647"
      have "sint x \<le> 2147483647" using sint_lt [of x] by simp
      then have "word_sle x max_x" using m by (simp add: word_sle_eq)
      with eq have "g b y (x + 1) max_x (b x y c) = Some d" by simp
      then have "max_x \<noteq> 2147483647" by (rule ih)
      with m show False by simp
    qed
  qed
  then show ?thesis by simp
qed

subsection \<open>Names of cache files\<close>

lemma digit_char_inj: "a < 10 \<Longrightarrow> b < 10 \<Longrightarrow> digit_char a = digit_char b \<Longrightarrow> a = b"
proof -
  assume "a < 10" "b < 10" "digit_char a = digit_char b"
  moreover have "distinct ''0123456789''" by simp
  ultimately show "a = b"
    unfolding digit_char_def by (subst (asm) nth_eq_iff_index_eq) simp_all
qed

lemma digit_char_is_digit: "d < 10 \<Longrightarrow> digit_char d \<in> set ''0123456789''"
  unfolding digit_char_def by (rule nth_mem) simp

lemma digits_nonempty: "digits n \<noteq> []"
  by (subst digits.simps) simp

lemma digits_set: "set (digits n) \<subseteq> set ''0123456789''"
proof (induction n rule: digits.induct)
  case (1 n)
  show ?case
  proof (cases "n < 10")
    case True
    then show ?thesis using digit_char_is_digit [of n] by (subst digits.simps) simp
  next
    case False
    moreover have "digit_char (n mod 10) \<in> set ''0123456789''"
      by (rule digit_char_is_digit) simp
    ultimately show ?thesis using 1 by (subst digits.simps) simp
  qed
qed

lemma digits_inj: "digits n = digits m \<Longrightarrow> n = m"
proof (induction n arbitrary: m rule: digits.induct)
  case (1 n)
  show ?case
  proof (cases "n < 10")
    case True
    then have n: "digits n = [digit_char n]" by (subst digits.simps) simp
    show ?thesis
    proof (cases "m < 10")
      case mt: True
      then have "digits m = [digit_char m]" by (subst digits.simps) simp
      with n 1(2) True mt show ?thesis by (simp add: digit_char_inj)
    next
      case False
      then have "digits m = digits (m div 10) @ [digit_char (m mod 10)]"
        by (subst digits.simps) simp
      with n 1(2) have "digits (m div 10) = []" by simp
      then show ?thesis by (simp add: digits_nonempty)
    qed
  next
    case False
    then have n: "digits n = digits (n div 10) @ [digit_char (n mod 10)]"
      by (subst digits.simps) simp
    show ?thesis
    proof (cases "m < 10")
      case True
      then have "digits m = [digit_char m]" by (subst digits.simps) simp
      with n 1(2) have "digits (n div 10) = []" by simp
      then show ?thesis by (simp add: digits_nonempty)
    next
      case mf: False
      then have "digits m = digits (m div 10) @ [digit_char (m mod 10)]"
        by (subst digits.simps) simp
      with n 1(2) have a: "digits (n div 10) = digits (m div 10)"
        and b: "digit_char (n mod 10) = digit_char (m mod 10)" by simp_all
      from a have "n div 10 = m div 10" using False by (rule 1(1) [rotated])
      moreover from b have "n mod 10 = m mod 10" by (simp add: digit_char_inj)
      ultimately show ?thesis by (metis div_mult_mod_eq)
    qed
  qed
qed

lemma to_string_inj: "to_string i = to_string j \<Longrightarrow> i = j"
proof -
  assume eq: "to_string i = to_string j"
  have nd: "CHR ''-'' \<noteq> hd (digits n)" for n
  proof -
    have "hd (digits n) \<in> set (digits n)" by (simp add: digits_nonempty)
    then have "hd (digits n) \<in> set ''0123456789''" using digits_set by blast
    then show ?thesis by auto
  qed
  have hd_neg: "i < 0 \<Longrightarrow> hd (to_string i) = CHR ''-''" for i by (simp add: to_string_def)
  have hd_pos: "\<not> i < 0 \<Longrightarrow> hd (to_string i) \<noteq> CHR ''-''" for i
    using nd [of "nat i"] by (simp add: to_string_def)
  show ?thesis
  proof (cases "i < 0")
    case True
    then have "j < 0" using eq hd_neg [of i] hd_pos [of j] by auto
    with True eq have "digits (nat (- i)) = digits (nat (- j))" by (simp add: to_string_def)
    then have "nat (- i) = nat (- j)" by (rule digits_inj)
    with True \<open>j < 0\<close> show ?thesis by simp
  next
    case False
    then have "\<not> j < 0" using eq hd_neg [of j] hd_pos [of i] by auto
    with False eq have "digits (nat i) = digits (nat j)" by (simp add: to_string_def)
    then have "nat i = nat j" by (rule digits_inj)
    with False \<open>\<not> j < 0\<close> show ?thesis by simp
  qed
qed

lemma to_string_no_underscore: "CHR ''_'' \<notin> set (to_string i)"
proof -
  have "set (digits n) \<subseteq> set ''0123456789''" for n by (rule digits_set)
  then have "CHR ''_'' \<notin> set (digits n)" for n by fastforce
  then show ?thesis by (simp add: to_string_def)
qed

lemma split_at_separator:
  assumes "xs @ c # ys = xs' @ c # ys'" "c \<notin> set xs" "c \<notin> set xs'"
  shows "xs = xs' \<and> ys = ys'"
  using assms
proof (induction xs arbitrary: xs')
  case Nil
  then show ?case by (cases xs') auto
next
  case (Cons a xs)
  then show ?case by (cases xs') auto
qed

lemma cachedNameForTile_inj:
  assumes "cachedNameForTile x y z = cachedNameForTile x' y' z"
  shows "x = x' \<and> y = y'"
proof -
  let ?r = "''z'' @ to_string (sint z) @ ''.jpg''"
  from assms have "to_string (sint x) @ CHR ''_'' # (''y'' @ to_string (sint y) @ CHR ''_'' # ?r)
      = to_string (sint x') @ CHR ''_'' # (''y'' @ to_string (sint y') @ CHR ''_'' # ?r)"
    by (simp add: cachedNameForTile_def)
  then have a: "to_string (sint x) = to_string (sint x')"
    and "''y'' @ to_string (sint y) @ CHR ''_'' # ?r = ''y'' @ to_string (sint y') @ CHR ''_'' # ?r"
    using split_at_separator [OF _ to_string_no_underscore to_string_no_underscore] by blast+
  then have b: "to_string (sint y) = to_string (sint y')" by simp
  from a have "sint x = sint x'" by (rule to_string_inj)
  moreover from b have "sint y = sint y'" by (rule to_string_inj)
  ultimately show ?thesis by (simp add: signed_word_eqI)
qed

lemma cachedPathForTile_inj:
  "cachedPathForTile s x y z = cachedPathForTile s x' y' z \<Longrightarrow> x = x' \<and> y = y'"
  by (simp add: cachedPathForTile_def cachedNameForTile_inj)

subsection \<open>One pass through the loop body\<close>

lemma start_body_cached:
  "cached s w (x, y) \<Longrightarrow>
     start_body x y (s, w) = (s\<lparr>m_tiles := m_tiles s @ [tile_of s (x, y)]\<rparr>, w)"
  by (simp add: start_body_def cached_def tile_of_def tile_path_def Let_def)

lemma start_body_fetched:
  "\<not> cached s w (x, y) \<Longrightarrow> fetched s w (x, y) \<Longrightarrow>
     start_body x y (s, w) =
       (s\<lparr>m_tiles := m_tiles s @ [tile_of s (x, y)]\<rparr>,
        write_file (w\<lparr>requests := requests w @ [tile_url s (x, y)]\<rparr>) (m_cache_path s)
          (tile_path s (x, y)) (body_text (server w (tile_url s (x, y)))))"
  by (simp add: start_body_def cached_def fetched_def tile_of_def tile_path_def tile_url_def
      cpr_Get_def Let_def)

lemma start_body_failed:
  "\<not> cached s w (x, y) \<Longrightarrow> \<not> fetched s w (x, y) \<Longrightarrow>
     start_body x y (s, w) =
       (s, w\<lparr>requests := requests w @ [tile_url s (x, y)],
              gzerr := gzerr w @ [failed_loading (server w (tile_url s (x, y)))]\<rparr>)"
  by (simp add: start_body_def cached_def fetched_def tile_of_def tile_path_def tile_url_def
      cpr_Get_def Let_def)

lemma configuration_cong:
  assumes "configuration s' = configuration s"
  shows "tile_path s' = tile_path s" "tile_url s' = tile_url s" "tile_of s' = tile_of s"
    "m_cache_path s' = m_cache_path s" "m_zoom s' = m_zoom s"
  using assms
  by (auto simp add: configuration_def tile_path_def tile_url_def tile_of_def fun_eq_iff
      cachedPathForTile_def uriForTile_def)

lemma write_file_fields:
  "dirs (write_file w d p c) = dirs w" "server (write_file w d p c) = server w"
  "requests (write_file w d p c) = requests w" "gzerr (write_file w d p c) = gzerr w"
  "q \<noteq> p \<Longrightarrow> files (write_file w d p c) q = files w q"
  by (simp_all add: write_file_def)

text \<open>What one pass through the body does.\<close>

lemma start_body_effect:
  assumes "start_body x y (s, w) = (s', w')"
  shows "configuration s' = configuration s"
    and "m_tiles s' = m_tiles s @ (if listed s w (x, y) then [tile_of s (x, y)] else [])"
    and "requests w' = requests w @ (if cached s w (x, y) then [] else [tile_url s (x, y)])"
    and "gzerr w' = gzerr w @
           (if listed s w (x, y) then []
            else [failed_loading (server w (tile_url s (x, y)))])"
    and "server w' = server w" and "dirs w' = dirs w"
    and "p \<noteq> tile_path s (x, y) \<Longrightarrow> files w' p = files w p"
    and "cached s w (x, y) \<or> \<not> fetched s w (x, y) \<Longrightarrow> files w' = files w"
proof -
  consider (c) "cached s w (x, y)" | (f) "\<not> cached s w (x, y)" "fetched s w (x, y)"
    | (e) "\<not> cached s w (x, y)" "\<not> fetched s w (x, y)" by blast
  then have "configuration s' = configuration s
    \<and> m_tiles s' = m_tiles s @ (if listed s w (x, y) then [tile_of s (x, y)] else [])
    \<and> requests w' = requests w @ (if cached s w (x, y) then [] else [tile_url s (x, y)])
    \<and> gzerr w' = gzerr w @
           (if listed s w (x, y) then []
            else [failed_loading (server w (tile_url s (x, y)))])
    \<and> server w' = server w \<and> dirs w' = dirs w
    \<and> (p \<noteq> tile_path s (x, y) \<longrightarrow> files w' p = files w p)
    \<and> (cached s w (x, y) \<or> \<not> fetched s w (x, y) \<longrightarrow> files w' = files w)"
  proof cases
    case c
    with assms show ?thesis
      by (auto simp add: start_body_cached listed_def configuration_def)
  next
    case f
    with assms show ?thesis
      by (auto simp add: start_body_fetched listed_def configuration_def write_file_fields)
  next
    case e
    with assms show ?thesis
      by (auto simp add: start_body_failed listed_def configuration_def)
  qed
  then show "configuration s' = configuration s"
    and "m_tiles s' = m_tiles s @ (if listed s w (x, y) then [tile_of s (x, y)] else [])"
    and "requests w' = requests w @ (if cached s w (x, y) then [] else [tile_url s (x, y)])"
    and "gzerr w' = gzerr w @
           (if listed s w (x, y) then []
            else [failed_loading (server w (tile_url s (x, y)))])"
    and "server w' = server w" and "dirs w' = dirs w"
    and "p \<noteq> tile_path s (x, y) \<Longrightarrow> files w' p = files w p"
    and "cached s w (x, y) \<or> \<not> fetched s w (x, y) \<Longrightarrow> files w' = files w"
    by simp_all
qed

lemma tile_path_inj: "tile_path s xy = tile_path s xy' \<Longrightarrow> xy = xy'"
  by (cases xy, cases xy') (simp add: tile_path_def cachedPathForTile_inj)

lemma start_body_configuration:
  "configuration (fst (start_body x y a)) = configuration (fst a)"
proof -
  obtain s w where a: "a = (s, w)" by (cases a)
  obtain s' w' where b: "start_body x y (s, w) = (s', w')" by (cases "start_body x y (s, w)")
  from start_body_effect(1) [OF b] a b show ?thesis by simp
qed

subsection \<open>A whole run\<close>

lemma cached_after_step:
  assumes "configuration s' = configuration s" "dirs w' = dirs w"
    and "\<And>p. p \<noteq> tile_path s xy \<Longrightarrow> files w' p = files w p" and "xy' \<noteq> xy"
  shows "cached s' w' xy' = cached s w xy'"
proof -
  from assms(4) have "tile_path s xy' \<noteq> tile_path s xy" using tile_path_inj by blast
  then have "files w' (tile_path s xy') = files w (tile_path s xy')" by (rule assms(3))
  then show ?thesis
    by (simp add: cached_def fs_exists_def configuration_cong(1) [OF assms(1)] assms(2))
qed

lemma fetched_after_step:
  assumes "configuration s' = configuration s" "server w' = server w"
  shows "fetched s' w' xy' = fetched s w xy'"
  by (simp add: fetched_def configuration_cong(2) [OF assms(1)] assms(2))

lemma run_effect:
  assumes "distinct g" and "fold (\<lambda>(x, y). start_body x y) g (s, w) = (s', w')"
  shows "configuration s' = configuration s
    \<and> m_tiles s' = m_tiles s @ map (tile_of s) (filter (listed s w) g)
    \<and> requests w' = requests w @ map (tile_url s) (filter (\<lambda>xy. \<not> cached s w xy) g)
    \<and> gzerr w' = gzerr w @ map (\<lambda>xy. failed_loading (server w (tile_url s xy)))
                               (filter (\<lambda>xy. \<not> listed s w xy) g)
    \<and> server w' = server w \<and> dirs w' = dirs w
    \<and> (\<forall>p. p \<notin> tile_path s ` {xy \<in> set g. \<not> cached s w xy \<and> fetched s w xy}
           \<longrightarrow> files w' p = files w p)"
  using assms
proof (induction g arbitrary: s w)
  case Nil
  then show ?case by simp
next
  case (Cons xy g)
  obtain x y where xy: "xy = (x, y)" by (cases xy)
  obtain s1 w1 where step: "start_body x y (s, w) = (s1, w1)" by (cases "start_body x y (s, w)")
  note e = start_body_effect [OF step]
  from Cons.prems have d: "distinct g" and nin: "xy \<notin> set g" by simp_all
  from Cons.prems(2) have run: "fold (\<lambda>(x, y). start_body x y) g (s1, w1) = (s', w')"
    by (simp add: xy step)
  note ih = Cons.IH [OF d run]
  have c: "cached s1 w1 xy' = cached s w xy'" if "xy' \<in> set g" for xy'
  proof (rule cached_after_step [OF e(1) e(6)])
    show "files w1 p = files w p" if "p \<noteq> tile_path s xy" for p
      using that e(7) [of p] by (simp add: xy)
    from that nin show "xy' \<noteq> xy" by blast
  qed
  have f: "fetched s1 w1 xy' = fetched s w xy'" for xy'
    by (rule fetched_after_step [OF e(1) e(5)])
  have r: "listed s1 w1 xy' = listed s w xy'" if "xy' \<in> set g" for xy'
    using c [OF that] f by (simp add: listed_def)
  have fr: "filter (listed s1 w1) g = filter (listed s w) g"
    by (rule filter_cong) (simp_all add: r)
  have fc: "filter (\<lambda>xy. \<not> cached s1 w1 xy) g = filter (\<lambda>xy. \<not> cached s w xy) g"
    by (rule filter_cong) (simp_all add: c)
  have fn: "filter (\<lambda>xy. \<not> listed s1 w1 xy) g = filter (\<lambda>xy. \<not> listed s w xy) g"
    by (rule filter_cong) (simp_all add: r)
  note cc = configuration_cong [OF e(1)]
  have 1: "configuration s' = configuration s" using ih e(1) by simp
  have 2: "m_tiles s' = m_tiles s @ map (tile_of s) (filter (listed s w) (xy # g))"
    using ih e(2) by (simp add: fr cc xy)
  have 3: "requests w' = requests w @ map (tile_url s) (filter (\<lambda>xy. \<not> cached s w xy) (xy # g))"
    using ih e(3) by (simp add: fc cc xy)
  have 4: "gzerr w' = gzerr w @ map (\<lambda>xy. failed_loading (server w (tile_url s xy)))
                               (filter (\<lambda>xy. \<not> listed s w xy) (xy # g))"
    using ih e(4) by (simp add: fn cc e(5) xy)
  have 5: "server w' = server w" "dirs w' = dirs w" using ih e(5) e(6) by simp_all
  have 6: "files w' p = files w p"
    if p: "p \<notin> tile_path s ` {xy' \<in> set (xy # g). \<not> cached s w xy' \<and> fetched s w xy'}"
    for p
  proof -
    have "p \<notin> tile_path s1 ` {xy' \<in> set g. \<not> cached s1 w1 xy' \<and> fetched s1 w1 xy'}"
      using p c f by (auto simp add: cc)
    with ih have a: "files w' p = files w1 p" by blast
    show ?thesis
    proof (cases "\<not> cached s w xy \<and> fetched s w xy")
      case True
      with p have "p \<noteq> tile_path s xy" by auto
      then have "files w1 p = files w p" using e(7) [of p] by (simp add: xy)
      with a show ?thesis by simp
    next
      case False
      then have "files w1 = files w" using e(8) by (auto simp add: xy)
      with a show ?thesis by simp
    qed
  qed
  from 1 2 3 4 5 6 show ?case by blast
qed

lemma distinct_word_range: "distinct (word_range lo hi)"
proof -
  have "distinct (map sint (word_range lo hi))" by (simp add: map_sint_word_range)
  then show ?thesis by (simp add: distinct_map)
qed

lemma distinct_word_grid: "distinct (word_grid min_x max_x min_y max_y)"
proof -
  have "word_grid min_x max_x min_y max_y
      = map (\<lambda>(y, x). (x, y)) (List.product (word_range min_y max_y) (word_range min_x max_x))"
    by (simp add: word_grid_def product_concat_map map_concat comp_def)
  moreover have "inj_on (\<lambda>(y :: int32, x :: int32). (x, y)) A" for A
    by (auto simp add: inj_on_def)
  ultimately show ?thesis
    by (simp add: distinct_map distinct_product distinct_word_range)
qed

text \<open>The run of \<^verbatim>\<open>start\<close> when no \<^verbatim>\<open>int\<close> overflows.\<close>

lemma start_run:
  assumes "overflow_free s"
  shows "\<exists>g. attempted s = Some g \<and> distinct g
    \<and> start s w = Some (fold (\<lambda>(x, y). start_body x y) g (abort s, w))
    \<and> map (\<lambda>(x, y). (sint x, sint y)) g
        = tile_grid (max 0 (sint (m_center_tile_x s) - sint (m_blocks s)))
            (min (2 ^ unat (m_zoom s) - 1) (sint (m_center_tile_x s) + sint (m_blocks s)))
            (max 0 (sint (m_center_tile_y s) - sint (m_blocks s)))
            (min (2 ^ unat (m_zoom s) - 1) (sint (m_center_tile_y s) + sint (m_blocks s)))"
proof -
  let ?a = "abort s"
  let ?min_x = "std_max 0 (m_center_tile_x ?a - m_blocks ?a)"
  let ?min_y = "std_max 0 (m_center_tile_y ?a - m_blocks ?a)"
  let ?max_x = "std_min (maxTiles ?a) (m_center_tile_x ?a + m_blocks ?a)"
  let ?max_y = "std_min (maxTiles ?a) (m_center_tile_y ?a + m_blocks ?a)"
  let ?g = "word_grid ?min_x ?max_x ?min_y ?max_y"
  from assms have zoom: "m_zoom s \<le> 31" by (simp add: overflow_free_def)
  have hi: "sint (maxTiles ?a) = 2 ^ unat (m_zoom s) - 1"
    using zoom by (simp add: sint_maxTiles abort_def)
  have min_x: "sint ?min_x = max 0 (sint (m_center_tile_x s) - sint (m_blocks s))"
    using assms
    by (simp add: sint_std_max sint_in_range_diff representable_def abort_def overflow_free_def)
  have min_y: "sint ?min_y = max 0 (sint (m_center_tile_y s) - sint (m_blocks s))"
    using assms
    by (simp add: sint_std_max sint_in_range_diff representable_def abort_def overflow_free_def)
  have max_x: "sint ?max_x
      = min (2 ^ unat (m_zoom s) - 1) (sint (m_center_tile_x s) + sint (m_blocks s))"
    using assms hi
    by (simp add: sint_std_min sint_in_range_add representable_def abort_def overflow_free_def)
  have max_y: "sint ?max_y
      = min (2 ^ unat (m_zoom s) - 1) (sint (m_center_tile_y s) + sint (m_blocks s))"
    using assms hi
    by (simp add: sint_std_min sint_in_range_add representable_def abort_def overflow_free_def)
  have ub_x: "sint ?max_x < 2 ^ 31 - 1" using assms max_x by (simp add: overflow_free_def)
  have ub_y: "sint ?max_y < 2 ^ 31 - 1" using assms max_y by (simp add: overflow_free_def)
  note loops = start_loops_grid [OF ub_x ub_y]
  have "attempted s = Some ?g"
    unfolding attempted_def by (simp only: loops fold_record) simp
  moreover have "distinct ?g" by (rule distinct_word_grid)
  moreover have "start s w = Some (fold (\<lambda>(x, y). start_body x y) ?g (abort s, w))"
    unfolding start_def Let_def by (simp only: loops)
  moreover have "map (\<lambda>(x, y). (sint x, sint y)) ?g
        = tile_grid (max 0 (sint (m_center_tile_x s) - sint (m_blocks s)))
            (min (2 ^ unat (m_zoom s) - 1) (sint (m_center_tile_x s) + sint (m_blocks s)))
            (max 0 (sint (m_center_tile_y s) - sint (m_blocks s)))
            (min (2 ^ unat (m_zoom s) - 1) (sint (m_center_tile_y s) + sint (m_blocks s)))"
    by (simp only: map_sint_word_grid min_x min_y max_x max_y)
  ultimately show ?thesis by blast
qed

lemma abort_same:
  "configuration (abort s) = configuration s" "tile_path (abort s) = tile_path s"
  "tile_url (abort s) = tile_url s" "tile_of (abort s) = tile_of s"
  "cached (abort s) = cached s" "fetched (abort s) = fetched s" "listed (abort s) = listed s"
  "m_tiles (abort s) = []"
proof -
  show c: "configuration (abort s) = configuration s" by (simp add: configuration_def abort_def)
  note cc = configuration_cong [OF c]
  show "tile_path (abort s) = tile_path s" "tile_url (abort s) = tile_url s"
    "tile_of (abort s) = tile_of s" by (rule cc)+
  then show "cached (abort s) = cached s" "fetched (abort s) = fetched s"
    by (simp_all add: cached_def fetched_def fun_eq_iff)
  then show "listed (abort s) = listed s" by (simp add: listed_def fun_eq_iff)
  show "m_tiles (abort s) = []" by (simp add: abort_def)
qed

lemma for_y_int_max: "for_y body min_x max_x y 2147483647 a = None"
proof (cases "for_y body min_x max_x y 2147483647 a")
  case None
  then show ?thesis .
next
  case (Some r)
  have "(2147483647 :: int32) \<noteq> 2147483647"
  proof (rule for_y.raw_induct [where P = "\<lambda>_ _ _ _ m _ _. m \<noteq> 2147483647", OF _ Some])
    fix g b min_x max_x y and max_y :: int32 and c d
    assume ih: "\<And>b min_x max_x y max_y c d.
        g b min_x max_x y max_y c = Some d \<Longrightarrow> max_y \<noteq> 2147483647"
      and eq: "(if word_sle y max_y
        then Option.bind (for_x b y min_x max_x c) (g b min_x max_x (y + 1) max_y)
        else Some c) = Some d"
    show "max_y \<noteq> 2147483647"
    proof
      assume m: "max_y = 2147483647"
      have "sint y \<le> 2147483647" using sint_lt [of y] by simp
      then have "word_sle y max_y" using m by (simp add: word_sle_eq)
      with eq obtain c' where "g b min_x max_x (y + 1) max_y c' = Some d"
        by (auto simp add: bind_eq_Some_conv)
      then have "max_y \<noteq> 2147483647" by (rule ih)
      with m show False by simp
    qed
  qed
  then show ?thesis by simp
qed

lemma sint_below_int_max: "(m :: int32) \<noteq> 2147483647 \<Longrightarrow> sint m < 2 ^ 31 - 1"
proof -
  assume "m \<noteq> 2147483647"
  then have "sint m \<noteq> sint (2147483647 :: int32)" using signed_word_eqI [of m 2147483647] by blast
  then have "sint m \<noteq> 2147483647" by simp
  with sint_lt [of m] show ?thesis by simp
qed

text \<open>
  When the loops return, they have passed through the grid between their bounds, and
  they return for every body.
\<close>

lemma for_y_returns:
  assumes "for_y body min_x max_x min_y max_y a = Some r"
  shows "for_y body' min_x max_x min_y max_y a'
    = Some (fold (\<lambda>(x, y). body' x y) (word_grid min_x max_x min_y max_y) a')"
proof (cases "word_sle min_y max_y")
  case False
  then have "[sint min_y..sint max_y] = []" by (simp add: word_sle_eq)
  then have "word_grid min_x max_x min_y max_y = []" by (simp add: word_grid_def word_range_def)
  with False show ?thesis by (subst for_y.simps) simp
next
  case True
  have y: "max_y \<noteq> 2147483647" using assms for_y_int_max [of body min_x max_x min_y a] by auto
  from assms True obtain c where "for_x body min_y min_x max_x a = Some c"
    by (subst (asm) for_y.simps) (auto simp add: bind_eq_Some_conv)
  then have x: "max_x \<noteq> 2147483647" using for_x_int_max [of body min_y min_x a] by auto
  from x y show ?thesis by (intro for_y_grid sint_below_int_max)
qed

lemma start_returns:
  assumes "start s w = Some r"
  shows "\<exists>g. attempted s = Some g \<and> distinct g
    \<and> r = fold (\<lambda>(x, y). start_body x y) g (abort s, w)"
proof -
  let ?a = "abort s"
  let ?g = "word_grid (std_max 0 (m_center_tile_x ?a - m_blocks ?a))
     (std_min (maxTiles ?a) (m_center_tile_x ?a + m_blocks ?a))
     (std_max 0 (m_center_tile_y ?a - m_blocks ?a))
     (std_min (maxTiles ?a) (m_center_tile_y ?a + m_blocks ?a))"
  from assms have run: "for_y start_body (std_max 0 (m_center_tile_x ?a - m_blocks ?a))
     (std_min (maxTiles ?a) (m_center_tile_x ?a + m_blocks ?a))
     (std_max 0 (m_center_tile_y ?a - m_blocks ?a))
     (std_min (maxTiles ?a) (m_center_tile_y ?a + m_blocks ?a)) (?a, w) = Some r"
    by (simp add: start_def start_loops_def Let_def)
  from for_y_returns [OF run, of start_body "(?a, w)"] run
  have "r = fold (\<lambda>(x, y). start_body x y) ?g (?a, w)" by simp
  moreover have "attempted s = Some ?g"
    unfolding attempted_def start_loops_def Let_def
    by (simp only: for_y_returns [OF run] fold_record) simp
  moreover have "distinct ?g" by (rule distinct_word_grid)
  ultimately show ?thesis by blast
qed

text \<open>The whole of \<^verbatim>\<open>start\<close>, in terms of the world before the call.\<close>

lemma start_effect:
  assumes "start s w = Some (s', w')"
  shows "\<exists>g. attempted s = Some g
    \<and> configuration s' = configuration s
    \<and> m_tiles s' = map (tile_of s) (filter (listed s w) g)
    \<and> requests w' = requests w @ map (tile_url s) (filter (\<lambda>xy. \<not> cached s w xy) g)
    \<and> gzerr w' = gzerr w @ map (\<lambda>xy. failed_loading (server w (tile_url s xy)))
                               (filter (\<lambda>xy. \<not> listed s w xy) g)
    \<and> server w' = server w \<and> dirs w' = dirs w
    \<and> (\<forall>p. p \<notin> tile_path s ` {xy \<in> set g. \<not> cached s w xy \<and> fetched s w xy}
           \<longrightarrow> files w' p = files w p)"
proof -
  from start_returns [OF assms] obtain g where g: "attempted s = Some g" "distinct g"
    "fold (\<lambda>(x, y). start_body x y) g (abort s, w) = (s', w')" by auto
  from run_effect [OF g(2) g(3)] g(1) show ?thesis
    by (simp add: abort_same)
qed

subsection \<open>The example run\<close>

lemma example_overflow_free: "overflow_free example_session"
  by (simp add: overflow_free_def example_session_def session_def representable_def)

lemma example_word_grid: "word_grid 0 1 0 1 = [(0, 0), (1, 0), (0, 1), (1, 1)]"
  by code_simp

lemma example_bounds:
  "std_max 0 (m_center_tile_x example_session - m_blocks example_session) = 0"
  "std_max 0 (m_center_tile_y example_session - m_blocks example_session) = 0"
  "std_min (maxTiles example_session) (m_center_tile_x example_session + m_blocks example_session) = 1"
  "std_min (maxTiles example_session) (m_center_tile_y example_session + m_blocks example_session) = 1"
  by (simp_all add: example_session_def session_def std_max_def std_min_def maxTiles_def word_sless_alt)

lemma example_strings:
  "cachedPathForTile example_session 0 0 1 = ''c/x0_y0_z1.jpg''"
  "cachedPathForTile example_session 1 0 1 = ''c/x1_y0_z1.jpg''"
  "cachedPathForTile example_session 0 1 1 = ''c/x0_y1_z1.jpg''"
  "cachedPathForTile example_session 1 1 1 = ''c/x1_y1_z1.jpg''"
  "uriForTile example_session 0 0 = ''http://t/1/0/0''"
  "uriForTile example_session 1 0 = ''http://t/1/1/0''"
  "uriForTile example_session 0 1 = ''http://t/1/0/1''"
  "uriForTile example_session 1 1 = ''http://t/1/1/1''"
  "failed_loading (not_found ''http://t/1/0/1'') = ''Failed loading http://t/1/0/1 with code 404'' @ [CHR 0x0A]"
  "failed_loading (not_found ''http://t/1/1/1'') = ''Failed loading http://t/1/1/1 with code 404'' @ [CHR 0x0A]"
  by code_simp+

lemma example_zoom: "m_zoom example_session = 1" "m_tiles example_session = []"
  "m_cache_path example_session = ''c''"
  by (simp_all add: example_session_def session_def)

lemma example_abort: "abort example_session = example_session"
  by (simp add: abort_def example_session_def session_def)

lemma example_attempted: "attempted example_session = Some [(0, 0), (1, 0), (0, 1), (1, 1)]"
proof -
  have "sint (1 :: int32) < 2 ^ 31 - 1" by simp
  then have "for_y body 0 1 0 1 a = Some (fold (\<lambda>(x, y). body x y) (word_grid 0 1 0 1) a)"
    for body :: "int32 \<Rightarrow> int32 \<Rightarrow> (int32 \<times> int32) list \<Rightarrow> (int32 \<times> int32) list" and a
    by (simp only: for_y_grid)
  then show ?thesis
    unfolding attempted_def start_loops_def Let_def example_abort
    by (simp add: example_bounds example_word_grid)
qed

lemma example_cached:
  "cached example_session cached_world (0, 0)" "\<not> cached example_session cached_world (1, 0)"
  "\<not> cached example_session cached_world (0, 1)" "\<not> cached example_session cached_world (1, 1)"
  by (simp_all add: cached_def tile_path_def fs_exists_def cached_world_def example_zoom
      example_strings)

lemma example_fetched:
  "fetched example_session cached_world (1, 0)" "\<not> fetched example_session cached_world (0, 1)"
  "\<not> fetched example_session cached_world (1, 1)"
  by (simp_all add: fetched_def tile_url_def cached_world_def tile_server_def not_found_def
      example_strings)

lemma example_listed:
  "listed example_session cached_world (0, 0)" "listed example_session cached_world (1, 0)"
  "\<not> listed example_session cached_world (0, 1)" "\<not> listed example_session cached_world (1, 1)"
  by (simp_all add: listed_def example_cached example_fetched)

lemma example_messages:
  "failed_loading (server cached_world (tile_url example_session (0, 1)))
     = ''Failed loading http://t/1/0/1 with code 404'' @ [CHR 0x0A]"
  "failed_loading (server cached_world (tile_url example_session (1, 1)))
     = ''Failed loading http://t/1/1/1 with code 404'' @ [CHR 0x0A]"
  by (simp_all add: tile_url_def example_strings cached_world_def tile_server_def)

lemma to_string_404: "to_string 404 = ''404''"
  by code_simp

lemma example_tiles:
  "tile_of example_session (0, 0) = MapTile 0 0 1 ''c/x0_y0_z1.jpg''"
  "tile_of example_session (1, 0) = MapTile 1 0 1 ''c/x1_y0_z1.jpg''"
  "tile_path example_session (1, 1) = ''c/x1_y1_z1.jpg''"
  by (simp_all add: tile_of_def tile_path_def example_zoom example_strings)

lemma example_urls:
  "tile_url example_session (1, 0) = ''http://t/1/1/0''"
  "tile_url example_session (0, 1) = ''http://t/1/0/1''"
  "tile_url example_session (1, 1) = ''http://t/1/1/1''"
  "tile_path example_session (0, 0) = ''c/x0_y0_z1.jpg''"
  by (simp_all add: tile_url_def tile_path_def example_zoom example_strings)

subsection \<open>The tiles that start attempts\<close>

text \<open>
  C1, as the specification has it, fails where the \<^verbatim>\<open>int\<close> arithmetic of \<^verbatim>\<open>start\<close>
  overflows. A session constructed at latitude 0, longitude 0 and zoom 1 with
  2147483647 blocks has the centre tile \<open>(1, 1)\<close>; \<open>1 + 2147483647\<close> wraps around to
  the smallest \<^verbatim>\<open>int\<close>, which becomes the upper bound of both loops, and no tile is
  attempted. The set of the specification has four tiles.
\<close>

lemma attempted_overflow:
  "attempted (session ''u'' ''./gzsatellite/mapscache/1'' 1 1 1 2147483647) = Some []"
proof -
  have "std_min 1 (2147483648 :: int32) = 2147483648"
    by (simp add: std_min_def word_sless_alt)
  moreover have "std_max 0 (- 2147483646 :: int32) = 0"
    by (simp add: std_max_def word_sless_alt)
  moreover have "\<not> word_sle 0 (2147483648 :: int32)"
    by (simp add: word_sle_eq)
  ultimately show ?thesis
    unfolding attempted_def start_loops_def Let_def
    by (subst for_y.simps) (simp add: session_def abort_def maxTiles_def)
qed

lemma blocks_int_max: "word_sle 0 (2147483647 :: int32)"
  by (simp add: word_sle_eq)

lemma small_grid:
  "tile_grid (max 0 (1 - 2147483647)) (min (2 ^ 1 - 1) (1 + 2147483647))
             (max 0 (1 - 2147483647)) (min (2 ^ 1 - 1) (1 + 2147483647))
     = [(0, 0), (1, 0), (0, 1), (1, 1)]"
  by code_simp

theorem start_overflow_attempts_nothing:
  "snd (TileLoader_ctor length_hash (empty_world not_found) ''u'' (Finite 0) (Finite 0) 1
          2147483647)
     = Inr (session ''u'' ''./gzsatellite/mapscache/1'' 1 1 1 2147483647)
   \<and> attempted (session ''u'' ''./gzsatellite/mapscache/1'' 1 1 1 2147483647) = Some []
   \<and> tile_grid (max 0 (1 - 2147483647)) (min (2 ^ 1 - 1) (1 + 2147483647))
                (max 0 (1 - 2147483647)) (min (2 ^ 1 - 1) (1 + 2147483647))
        = [(0, 0), (1, 0), (0, 1), (1, 1)]"
  by (simp only: ctor_zoom_1 [OF blocks_int_max] attempted_overflow small_grid snd_conv)

text \<open>
  C1, amended. Let \<open>(cx, cy)\<close> be the centre tile, \<open>R\<close> the block radius and \<open>z \<le> 31\<close>
  the zoom of a session. If \<open>cx - R\<close>, \<open>cx + R\<close>, \<open>cy - R\<close> and \<open>cy + R\<close> are
  representable as \<^verbatim>\<open>int\<close> and the two upper bounds \<open>min (2 ^ z - 1) (cx + R)\<close> and
  \<open>min (2 ^ z - 1) (cy + R)\<close> are below the largest \<^verbatim>\<open>int\<close>, then \<^verbatim>\<open>start\<close> attempts
  the tiles \<open>(x, y)\<close> with \<open>max 0 (cx - R) \<le> x \<le> min (2 ^ z - 1) (cx + R)\<close> and
  \<open>max 0 (cy - R) \<le> y \<le> min (2 ^ z - 1) (cy + R)\<close>, each axis clamped on its own, these
  and no others, row by row: \<open>y\<close> ascending outside, \<open>x\<close> ascending inside. \<^verbatim>\<open>start\<close>
  returns, and its result is that of the loop body applied to these tiles in this
  order.
\<close>

theorem start_attempts_grid:
  fixes s :: TileLoader and cx cy R hi :: int
  defines "cx \<equiv> sint (m_center_tile_x s)"
    and "cy \<equiv> sint (m_center_tile_y s)"
    and "R \<equiv> sint (m_blocks s)"
    and "hi \<equiv> 2 ^ unat (m_zoom s) - 1"
  assumes "overflow_free s"
  shows "\<exists>g. attempted s = Some g
           \<and> map (\<lambda>(x, y). (sint x, sint y)) g
               = tile_grid (max 0 (cx - R)) (min hi (cx + R)) (max 0 (cy - R)) (min hi (cy + R))
           \<and> set (tile_grid (max 0 (cx - R)) (min hi (cx + R))
                             (max 0 (cy - R)) (min hi (cy + R)))
               = {(x, y). max 0 (cx - R) \<le> x \<and> x \<le> min hi (cx + R)
                           \<and> max 0 (cy - R) \<le> y \<and> y \<le> min hi (cy + R)}
           \<and> start s w = Some (fold (\<lambda>(x, y). start_body x y) g (abort s, w))"
  using start_run [OF assms(5), of w] set_tile_grid
  unfolding cx_def cy_def R_def hi_def by blast

lemma example_grid: "tile_grid 0 1 0 1 = [(0, 0), (1, 0), (0, 1), (1, 1)]"
  by code_simp

theorem start_attempts_grid_witness:
  "\<exists>g. attempted example_session = Some g
     \<and> map (\<lambda>(x, y). (sint x, sint y)) g = [(0, 0), (1, 0), (0, 1), (1, 1)]"
proof -
  from start_attempts_grid [OF example_overflow_free, of cached_world]
  obtain g where "attempted example_session = Some g"
    and "map (\<lambda>(x, y). (sint x, sint y)) g = tile_grid 0 1 0 1"
    by (auto simp add: example_session_def session_def)
  then show ?thesis by (simp add: example_grid)
qed

subsection \<open>Failed tiles\<close>

text \<open>
  When the file of an attempted tile is not in the cache and the server answers with a
  status other than 200, the loop body appends no tile and writes no file; it only
  records the request and writes the line \<open>Failed loading <url> with code <status>\<close>
  to the error stream, and returns, so that the loop goes on.
\<close>

lemma start_body_not_200:
  assumes "\<not> cached s w (x, y)" "status_code (server w (uriForTile s x y)) \<noteq> 200"
  shows "start_body x y (s, w) =
        (s, w\<lparr>requests := requests w @ [uriForTile s x y],
               gzerr := gzerr w @
                 [''Failed loading '' @ final_url (server w (uriForTile s x y)) @ '' with code ''
                    @ to_string (status_code (server w (uriForTile s x y))) @ [CHR 0x0A]]\<rparr>)"
  using assms by (simp add: start_body_failed fetched_def tile_url_def failed_loading_def)

lemma start_body_written:
  assumes "\<not> cached s w (x, y)" "fetched s w (x, y)" "start_body x y (s, w) = (s', w')"
  shows "files w' (tile_path s (x, y)) =
     (if m_cache_path s \<in> dirs w then Some (body_text (server w (tile_url s (x, y)))) else None)"
  using assms
  by (auto simp add: start_body_fetched write_file_def cached_def fs_exists_def)

lemma run_written:
  assumes "distinct g" and "fold (\<lambda>(x, y). start_body x y) g (s, w) = (s', w')"
    and "xy \<in> set g" "\<not> cached s w xy" "fetched s w xy"
  shows "files w' (tile_path s xy) =
     (if m_cache_path s \<in> dirs w then Some (body_text (server w (tile_url s xy))) else None)"
  using assms
proof (induction g arbitrary: s w)
  case Nil
  then show ?case by simp
next
  case (Cons xy0 g)
  obtain x y where xy0: "xy0 = (x, y)" by (cases xy0)
  obtain s1 w1 where step: "start_body x y (s, w) = (s1, w1)" by (cases "start_body x y (s, w)")
  note e = start_body_effect [OF step]
  note cc = configuration_cong [OF e(1)]
  from Cons.prems have d: "distinct g" and nin: "xy0 \<notin> set g" by simp_all
  from Cons.prems(2) have run: "fold (\<lambda>(x, y). start_body x y) g (s1, w1) = (s', w')"
    by (simp add: xy0 step)
  show ?case
  proof (cases "xy = xy0")
    case True
    from Cons.prems(4,5) have "files w1 (tile_path s xy) =
      (if m_cache_path s \<in> dirs w then Some (body_text (server w (tile_url s xy))) else None)"
      unfolding True xy0 by (rule start_body_written [OF _ _ step])
    moreover have "tile_path s xy \<notin> tile_path s1 ` {xy' \<in> set g. \<not> cached s1 w1 xy' \<and> fetched s1 w1 xy'}"
    proof
      assume "tile_path s xy \<in> tile_path s1 ` {xy' \<in> set g. \<not> cached s1 w1 xy' \<and> fetched s1 w1 xy'}"
      then obtain xy' where "xy' \<in> set g" "tile_path s xy = tile_path s xy'"
        by (auto simp add: cc)
      with tile_path_inj [of s xy xy'] nin True show False by simp
    qed
    with run_effect [OF d run] have "files w' (tile_path s xy) = files w1 (tile_path s xy)"
      by blast
    ultimately show ?thesis by simp
  next
    case False
    with Cons.prems(3) have in_g: "xy \<in> set g" by simp
    have c: "cached s1 w1 xy = cached s w xy"
    proof (rule cached_after_step [OF e(1) e(6)])
      show "files w1 p = files w p" if "p \<noteq> tile_path s xy0" for p
        using that e(7) [of p] by (simp add: xy0)
      from False show "xy \<noteq> xy0" .
    qed
    have f: "fetched s1 w1 xy = fetched s w xy"
      by (rule fetched_after_step [OF e(1) e(5)])
    from Cons.IH [OF d run in_g] Cons.prems(4,5) c f
    show ?thesis by (simp add: cc e(5) e(6))
  qed
qed

text \<open>
  A run of \<^verbatim>\<open>start\<close> that does not overflow returns. The tiles it lists are the
  attempted tiles with a file in the cache or with status 200, in the order of the
  attempts; a tile with another status is not listed, no file is at its cache path
  and its line is in the error stream. A listed tile is backed by a file when its file
  was in the cache or when the cache directory exists.
\<close>

lemma start_skips_failed_tiles:
  assumes "overflow_free s"
  shows "\<exists>s' w' g. start s w = Some (s', w') \<and> attempted s = Some g
           \<and> m_tiles s' = map (tile_of s) (filter (listed s w) g)
           \<and> gzerr w' = gzerr w @ map (\<lambda>xy. failed_loading (server w (tile_url s xy)))
                                      (filter (\<lambda>xy. \<not> listed s w xy) g)
           \<and> (\<forall>xy \<in> set g. \<not> listed s w xy \<longrightarrow>
                 (\<forall>t \<in> set (m_tiles s'). (tile_x t, tile_y t) \<noteq> xy)
                 \<and> files w' (tile_path s xy) = None
                 \<and> failed_loading (server w (tile_url s xy)) \<in> set (gzerr w'))
           \<and> (\<forall>xy \<in> set g. resolved s w w' xy \<longleftrightarrow>
                 cached s w xy \<or> (fetched s w xy \<and> m_cache_path s \<in> dirs w))"
proof -
  from start_run [OF assms, of w] obtain g0 r where r0: "start s w = Some r"
    and "attempted s = Some g0" by blast
  obtain s' w' where r: "start s w = Some (s', w')" using r0 by (cases r) simp
  from start_returns [OF r] obtain g where a: "attempted s = Some g" and d: "distinct g"
    and run: "fold (\<lambda>(x, y). start_body x y) g (abort s, w) = (s', w')" by auto
  from run_effect [OF d run]
  have t: "m_tiles s' = map (tile_of s) (filter (listed s w) g)"
    and e: "gzerr w' = gzerr w @ map (\<lambda>xy. failed_loading (server w (tile_url s xy)))
                                      (filter (\<lambda>xy. \<not> listed s w xy) g)"
    and f: "\<And>p. p \<notin> tile_path s ` {xy \<in> set g. \<not> cached s w xy \<and> fetched s w xy}
              \<Longrightarrow> files w' p = files w p"
    by (simp_all add: abort_same)
  have skipped: "(\<forall>t \<in> set (m_tiles s'). (tile_x t, tile_y t) \<noteq> xy)
        \<and> files w' (tile_path s xy) = None
        \<and> failed_loading (server w (tile_url s xy)) \<in> set (gzerr w')"
    if xy: "xy \<in> set g" "\<not> listed s w xy" for xy
  proof (intro conjI ballI)
    fix t assume "t \<in> set (m_tiles s')"
    then obtain xy' where "t = tile_of s xy'" "listed s w xy'" using t by auto
    with xy(2) show "(tile_x t, tile_y t) \<noteq> xy"
      by (cases xy') (auto simp add: tile_of_def)
  next
    have "tile_path s xy \<notin> tile_path s ` {xy \<in> set g. \<not> cached s w xy \<and> fetched s w xy}"
    proof
      assume "tile_path s xy \<in> tile_path s ` {xy \<in> set g. \<not> cached s w xy \<and> fetched s w xy}"
      then obtain xy' where "tile_path s xy = tile_path s xy'" "fetched s w xy'" by blast
      then have "fetched s w xy" using tile_path_inj [of s xy xy'] by simp
      with xy(2) show False by (simp add: listed_def)
    qed
    then have "files w' (tile_path s xy) = files w (tile_path s xy)" by (rule f)
    moreover from xy(2) have "\<not> cached s w xy" by (simp add: listed_def)
    ultimately show "files w' (tile_path s xy) = None" by (simp add: cached_def fs_exists_def)
  next
    from xy show "failed_loading (server w (tile_url s xy)) \<in> set (gzerr w')"
      by (simp add: e)
  qed
  have same: "configuration (abort s) = configuration s"
    by (simp add: configuration_def abort_def)
  have backed: "resolved s w w' xy \<longleftrightarrow>
      cached s w xy \<or> (fetched s w xy \<and> m_cache_path s \<in> dirs w)"
    if xy: "xy \<in> set g" for xy
  proof (cases "\<not> cached s w xy \<and> fetched s w xy")
    case True
    then have "\<not> cached (abort s) w xy" "fetched (abort s) w xy" by (simp_all add: abort_same)
    from run_written [OF d run xy this] True show ?thesis
      by (simp add: resolved_def configuration_cong [OF same])
  next
    case False
    then show ?thesis by (auto simp add: resolved_def)
  qed
  from r a t e skipped backed show ?thesis by blast
qed

subsection \<open>Tiles that are listed without a file\<close>

lemma unwritten_strings:
  "cachedPathForTile (session ''u'' ''c'' 0 0 0 0) 0 0 0 = ''c/x0_y0_z0.jpg''"
  "uriForTile (session ''u'' ''c'' 0 0 0 0) 0 0 = ''u''"
  by code_simp+

lemma unwritten_grid: "word_grid 0 0 0 0 = [(0, 0)]"
  by code_simp

lemma unwritten_bounds:
  "std_max 0 (0 :: int32) = 0" "std_min 0 (0 :: int32) = 0"
  by (simp_all add: std_max_def std_min_def)

text \<open>
  C2. A tile with a status other than 200 is skipped as the specification says (lemma
  \<open>start_skips_failed_tiles\<close>), but \<^verbatim>\<open>tiles()\<close> is not exactly the list of the
  successfully resolved tiles. The loop body does not look at the stream it writes
  the image to: when the file cannot be opened, because the cache directory is not
  there when \<^verbatim>\<open>start\<close> runs, nothing is written and nothing is reported, and the
  \<^verbatim>\<open>MapTile\<close> is appended all the same. A session at zoom 0 with the cache path
  \<open>c\<close>, in a world without that directory and with a server that answers 200: \<^verbatim>\<open>start\<close>
  returns, \<^verbatim>\<open>tiles()\<close> has the tile \<open>(0, 0)\<close> with the path \<open>c/x0_y0_z0.jpg\<close>, there
  is no such file, and the error stream is empty.
\<close>

theorem start_lists_unwritten_tile:
  "start (session ''u'' ''c'' 0 0 0 0) (empty_world ok_server) =
     Some ((session ''u'' ''c'' 0 0 0 0)\<lparr>m_tiles := [MapTile 0 0 0 ''c/x0_y0_z0.jpg'']\<rparr>,
           (empty_world ok_server)\<lparr>requests := [''u'']\<rparr>)
   \<and> attempted (session ''u'' ''c'' 0 0 0 0) = Some [(0, 0)]
   \<and> status_code (server (empty_world ok_server) (uriForTile (session ''u'' ''c'' 0 0 0 0) 0 0))
       = 200
   \<and> files ((empty_world ok_server)\<lparr>requests := [''u'']\<rparr>) ''c/x0_y0_z0.jpg'' = None
   \<and> gzerr ((empty_world ok_server)\<lparr>requests := [''u'']\<rparr>) = []
   \<and> \<not> resolved (session ''u'' ''c'' 0 0 0 0) (empty_world ok_server)
         ((empty_world ok_server)\<lparr>requests := [''u'']\<rparr>) (0, 0)"
proof -
  let ?s = "session ''u'' ''c'' 0 0 0 0"
  have loops: "for_y body 0 0 0 0 a = Some (fold (\<lambda>(x, y). body x y) (word_grid 0 0 0 0) a)"
    for body :: "int32 \<Rightarrow> int32 \<Rightarrow> 'a \<Rightarrow> 'a" and a
    by (rule for_y_grid) simp_all
  have s: "abort ?s = ?s" "m_zoom ?s = 0" "m_center_tile_x ?s = 0" "m_center_tile_y ?s = 0"
    "m_blocks ?s = 0" "m_cache_path ?s = ''c''" "m_tiles ?s = []"
    by (simp_all add: abort_def session_def)
  have body: "start_body 0 0 (?s, empty_world ok_server) =
     (?s\<lparr>m_tiles := [MapTile 0 0 0 ''c/x0_y0_z0.jpg'']\<rparr>,
      (empty_world ok_server)\<lparr>requests := [''u'']\<rparr>)"
    by (simp add: start_body_def Let_def s unwritten_strings fs_exists_def cpr_Get_def
        write_file_def empty_world_def ok_server_def)
  have 1: "start ?s (empty_world ok_server) =
     Some (?s\<lparr>m_tiles := [MapTile 0 0 0 ''c/x0_y0_z0.jpg'']\<rparr>,
           (empty_world ok_server)\<lparr>requests := [''u'']\<rparr>)"
    unfolding start_def start_loops_def Let_def maxTiles_def s
    by (simp add: unwritten_bounds loops unwritten_grid body)
  have 2: "attempted ?s = Some [(0, 0)]"
    unfolding attempted_def start_loops_def Let_def maxTiles_def s
    by (simp add: unwritten_bounds loops unwritten_grid)
  have 3: "\<not> resolved ?s (empty_world ok_server)
         ((empty_world ok_server)\<lparr>requests := [''u'']\<rparr>) (0, 0)"
    by (simp add: resolved_def cached_def tile_path_def fs_exists_def s unwritten_strings
        empty_world_def)
  from 1 2 3 show ?thesis
    by (simp add: unwritten_strings) (simp add: empty_world_def ok_server_def)
qed

subsection \<open>Cached tiles\<close>

text \<open>
  C3. When the file of an attempted tile exists, the loop body appends a \<^verbatim>\<open>MapTile\<close>
  with the path of that file and leaves the world as it is: the test comes first, and
  no request is sent. Whenever \<^verbatim>\<open>start\<close> returns, the requests sent are those for the attempted tiles whose file is not in the cache before
  the call, one each and in the order of the attempts, so none is for a cached tile;
  and for every attempted tile whose file is in the cache, its \<^verbatim>\<open>MapTile\<close> is in
  \<^verbatim>\<open>tiles()\<close>, with the path of the cached file, and the file is as it was.
\<close>

theorem cached_tile_is_not_fetched:
  "(fs_exists w (cachedPathForTile s x y (m_zoom s)) \<longrightarrow>
      start_body x y (s, w) =
        (s\<lparr>m_tiles := m_tiles s @
              [MapTile x y (m_zoom s) (cachedPathForTile s x y (m_zoom s))]\<rparr>, w))
   \<and> (start s w = Some (s', w') \<longrightarrow>
        (\<exists>g. attempted s = Some g
           \<and> requests w' = requests w @ map (tile_url s) (filter (\<lambda>xy. \<not> cached s w xy) g)
           \<and> (\<forall>xy \<in> set g. cached s w xy \<longrightarrow>
                 tile_of s xy \<in> set (m_tiles s')
                 \<and> imagePath (tile_of s xy) = tile_path s xy
                 \<and> files w' (tile_path s xy) = files w (tile_path s xy))))"
proof (intro conjI impI)
  assume "fs_exists w (cachedPathForTile s x y (m_zoom s))"
  then show "start_body x y (s, w) =
        (s\<lparr>m_tiles := m_tiles s @
              [MapTile x y (m_zoom s) (cachedPathForTile s x y (m_zoom s))]\<rparr>, w)"
    by (simp add: start_body_def Let_def)
next
  assume "start s w = Some (s', w')"
  from start_effect [OF this] obtain g where
    a: "attempted s = Some g"
    and t: "m_tiles s' = map (tile_of s) (filter (listed s w) g)"
    and q: "requests w' = requests w @ map (tile_url s) (filter (\<lambda>xy. \<not> cached s w xy) g)"
    and f: "\<And>p. p \<notin> tile_path s ` {xy \<in> set g. \<not> cached s w xy \<and> fetched s w xy}
              \<Longrightarrow> files w' p = files w p"
    by blast
  have "tile_of s xy \<in> set (m_tiles s') \<and> imagePath (tile_of s xy) = tile_path s xy
        \<and> files w' (tile_path s xy) = files w (tile_path s xy)"
    if xy: "xy \<in> set g" "cached s w xy" for xy
  proof (intro conjI)
    from xy show "tile_of s xy \<in> set (m_tiles s')" by (simp add: t listed_def)
    show "imagePath (tile_of s xy) = tile_path s xy" by (cases xy) (simp add: tile_of_def)
    show "files w' (tile_path s xy) = files w (tile_path s xy)"
    proof (rule f)
      show "tile_path s xy \<notin> tile_path s ` {xy \<in> set g. \<not> cached s w xy \<and> fetched s w xy}"
        using xy(2) tile_path_inj by blast
    qed
  qed
  with a q show "\<exists>g. attempted s = Some g
           \<and> requests w' = requests w @ map (tile_url s) (filter (\<lambda>xy. \<not> cached s w xy) g)
           \<and> (\<forall>xy \<in> set g. cached s w xy \<longrightarrow>
                 tile_of s xy \<in> set (m_tiles s')
                 \<and> imagePath (tile_of s xy) = tile_path s xy
                 \<and> files w' (tile_path s xy) = files w (tile_path s xy))"
    by blast
qed

theorem cached_tile_is_not_fetched_witness:
  "start_body 0 0 (example_session, cached_world) =
     (example_session\<lparr>m_tiles := [MapTile 0 0 1 ''c/x0_y0_z1.jpg'']\<rparr>, cached_world)
   \<and> (\<exists>s' w'. start example_session cached_world = Some (s', w')
         \<and> requests w' = [''http://t/1/1/0'', ''http://t/1/0/1'', ''http://t/1/1/1'']
         \<and> MapTile 0 0 1 ''c/x0_y0_z1.jpg'' \<in> set (m_tiles s')
         \<and> files w' ''c/x0_y0_z1.jpg'' = Some ''A'')"
proof -
  from start_run [OF example_overflow_free, of cached_world]
  obtain s' w' where r: "start example_session cached_world = Some (s', w')"
    by (cases "the (start example_session cached_world)") auto
  note inst = cached_tile_is_not_fetched [of cached_world example_session 0 0 s' w']
  have "fs_exists cached_world (cachedPathForTile example_session 0 0 (m_zoom example_session))"
    using example_cached(1) by (simp add: cached_def tile_path_def)
  with inst have one: "start_body 0 0 (example_session, cached_world) =
     (example_session\<lparr>m_tiles := [MapTile 0 0 1 ''c/x0_y0_z1.jpg'']\<rparr>, cached_world)"
    by (simp add: example_strings example_zoom)
  from inst r obtain g where
    g: "attempted example_session = Some g"
    and q: "requests w' = requests cached_world @
         map (tile_url example_session) (filter (\<lambda>xy. \<not> cached example_session cached_world xy) g)"
    and f: "\<forall>xy \<in> set g. cached example_session cached_world xy \<longrightarrow>
         tile_of example_session xy \<in> set (m_tiles s')
         \<and> imagePath (tile_of example_session xy) = tile_path example_session xy
         \<and> files w' (tile_path example_session xy) = files cached_world (tile_path example_session xy)"
    by blast
  from g have g': "g = [(0, 0), (1, 0), (0, 1), (1, 1)]" by (simp add: example_attempted)
  from q have "requests w' = [''http://t/1/1/0'', ''http://t/1/0/1'', ''http://t/1/1/1'']"
    by (simp add: g' example_cached example_urls) (simp add: cached_world_def)
  moreover from f have "MapTile 0 0 1 ''c/x0_y0_z1.jpg'' \<in> set (m_tiles s')
      \<and> files w' ''c/x0_y0_z1.jpg'' = files cached_world ''c/x0_y0_z1.jpg''"
    by (simp add: g' example_cached example_tiles example_urls)
  moreover have "files cached_world ''c/x0_y0_z1.jpg'' = Some ''A''"
    by (simp add: cached_world_def)
  ultimately show ?thesis using one r by auto
qed

subsection \<open>What start and abort leave alone\<close>

text \<open>
  C9. \<^verbatim>\<open>abort\<close> leaves the configuration (source, latitude, longitude, zoom, block
  radius), the centre tile, the origin offset and the cache path as they are, empties
  the list of tiles, and a second \<^verbatim>\<open>abort\<close> changes nothing. \<^verbatim>\<open>start\<close> does not
  depend on the list of tiles it finds, since it discards it first, and when it
  returns, the configuration and the derived members are those from before the call.
  The constructor is what computes the centre tile and the origin offset, from
  \<^verbatim>\<open>latLonToTileCoords\<close> at the configured position.
\<close>

theorem start_abort_frame:
  "configuration (abort s) = configuration s
   \<and> m_tiles (abort s) = []
   \<and> abort (abort s) = abort s
   \<and> start (s\<lparr>m_tiles := ts\<rparr>) w = start s w
   \<and> (start s w = Some (s', w') \<longrightarrow> configuration s' = configuration s)
   \<and> (TileLoader_ctor hash_fn w0 service latitude longitude zoom blocks = (w1, Inr s0) \<longrightarrow>
        (\<exists>x y. latLonToTileCoords latitude longitude zoom = Inr (x, y)
           \<and> m_center_tile_x s0 = floor_to_int x
           \<and> m_center_tile_y s0 = floor_to_int y
           \<and> m_origin_offset_x s0
               = finite_map (\<lambda>x. x - real_of_int (sint (m_center_tile_x s0))) x
           \<and> m_origin_offset_y s0
               = finite_map (\<lambda>y. y - real_of_int (sint (m_center_tile_y s0))) y
           \<and> m_tiles s0 = []))"
proof (intro conjI impI)
  show "configuration (abort s) = configuration s" by (simp add: configuration_def abort_def)
  show "m_tiles (abort s) = []" by (simp add: abort_def)
  show "abort (abort s) = abort s" by (simp add: abort_def)
  show "start (s\<lparr>m_tiles := ts\<rparr>) w = start s w" by (simp add: start_def abort_def)
next
  assume "start s w = Some (s', w')"
  then have "for_y start_body
      (std_max 0 (m_center_tile_x (abort s) - m_blocks (abort s)))
      (std_min (maxTiles (abort s)) (m_center_tile_x (abort s) + m_blocks (abort s)))
      (std_max 0 (m_center_tile_y (abort s) - m_blocks (abort s)))
      (std_min (maxTiles (abort s)) (m_center_tile_y (abort s) + m_blocks (abort s)))
      (abort s, w) = Some (s', w')"
    by (simp add: start_def start_loops_def Let_def)
  then have "(configuration \<circ> fst) (s', w') = (configuration \<circ> fst) (abort s, w)"
    by (rule for_y_preserves [rotated]) (simp add: start_body_configuration)
  then show "configuration s' = configuration s" by (simp add: configuration_def abort_def)
next
  assume "TileLoader_ctor hash_fn w0 service latitude longitude zoom blocks = (w1, Inr s0)"
  then show "\<exists>x y. latLonToTileCoords latitude longitude zoom = Inr (x, y)
           \<and> m_center_tile_x s0 = floor_to_int x
           \<and> m_center_tile_y s0 = floor_to_int y
           \<and> m_origin_offset_x s0
               = finite_map (\<lambda>x. x - real_of_int (sint (m_center_tile_x s0))) x
           \<and> m_origin_offset_y s0
               = finite_map (\<lambda>y. y - real_of_int (sint (m_center_tile_y s0))) y
           \<and> m_tiles s0 = []"
    by (auto simp add: TileLoader_ctor_def Let_def split: if_splits sum.splits prod.splits)
qed

theorem start_abort_frame_witness:
  "(\<exists>s' w'. start example_session cached_world = Some (s', w')
       \<and> configuration s' = configuration example_session)
   \<and> (\<exists>x y. latLonToTileCoords (Finite 0) (Finite 0) 1 = Inr (x, y)
         \<and> (1 :: int32) = floor_to_int x)"
proof -
  from start_run [OF example_overflow_free, of cached_world]
  obtain s' w' where r: "start example_session cached_world = Some (s', w')"
    by (cases "the (start example_session cached_world)") auto
  note ctor = ctor_zoom_1 [OF example_blocks]
  note inst = start_abort_frame
    [of example_session "[]" cached_world s' w' length_hash "empty_world not_found" "''u''"
       "Finite 0" "Finite 0" 1 1
       "(empty_world not_found)
          \<lparr>dirs := {''.'', ''./gzsatellite'', ''./gzsatellite/mapscache'',
                    ''./gzsatellite/mapscache/1''}\<rparr>"
       "session ''u'' ''./gzsatellite/mapscache/1'' 1 1 1 1"]
  from inst r have a: "configuration s' = configuration example_session" by blast
  from inst ctor have "\<exists>x y. latLonToTileCoords (Finite 0) (Finite 0) 1 = Inr (x, y)
      \<and> m_center_tile_x (session ''u'' ''./gzsatellite/mapscache/1'' 1 1 1 1) = floor_to_int x"
    by blast
  then have "\<exists>x y. latLonToTileCoords (Finite 0) (Finite 0) 1 = Inr (x, y)
      \<and> (1 :: int32) = floor_to_int x"
    by (simp add: session_def)
  with a r show ?thesis by blast
qed

subsection \<open>The east edge of the map\<close>

lemma east_edge_coords:
  "latLonToTileCoords (Finite 0) (Finite 180) 0 = Inr (Finite 1, Finite (1 / 2))"
  "latLonToTileCoords (Finite 0) (Finite 180) 1 = Inr (Finite 2, Finite 1)"
  by (simp_all add: latLonToTileCoords_def Let_def grid_width_def finite_map_def lat_limit_def)

lemma east_edge_ctor:
  "TileLoader_ctor length_hash (empty_world not_found) ''u'' (Finite 0) (Finite 180) 1 0 =
     ((empty_world not_found)
        \<lparr>dirs := {''.'', ''./gzsatellite'', ''./gzsatellite/mapscache'',
                  ''./gzsatellite/mapscache/1''}\<rparr>,
      Inr edge_session)"
  using example_cache_path example_digits
  by (simp add: TileLoader_ctor_def create_directories_def empty_world_def east_edge_coords
      Let_def session_def edge_session_def finite_map_def floor_to_int_def)

lemma east_edge_grid: "word_grid 2 1 1 1 = []"
  by code_simp

lemma east_edge_bounds:
  "std_max 0 (2 :: int32) = 2" "std_min 1 (2 :: int32) = 1"
  "std_max 0 (1 :: int32) = 1" "std_min 1 (1 :: int32) = 1"
  by (simp_all add: std_max_def std_min_def word_sless_alt)

lemma east_edge_attempted: "attempted edge_session = Some []"
proof -
  have loops: "for_y body 2 1 1 1 a = Some (fold (\<lambda>(x, y). body x y) (word_grid 2 1 1 1) a)"
    for body :: "int32 \<Rightarrow> int32 \<Rightarrow> 'a \<Rightarrow> 'a" and a
    by (rule for_y_grid) simp_all
  have s: "m_zoom (abort edge_session) = 1" "m_center_tile_x (abort edge_session) = 2"
    "m_center_tile_y (abort edge_session) = 1" "m_blocks (abort edge_session) = 0"
    by (simp_all add: abort_def session_def edge_session_def)
  show ?thesis
    unfolding attempted_def start_loops_def Let_def maxTiles_def s
    by (simp add: east_edge_bounds loops east_edge_grid)
qed

text \<open>
  C6. The guards let the longitude 180 pass, and there \<open>x\<close> is the width of the grid,
  \<open>2 ^ zoom\<close>: at latitude 0 and zoom 0 the coordinates are \<open>(1, 1 / 2)\<close> and the floor
  of \<open>x\<close> is 1, above the only index 0; at zoom 1 they are \<open>(2, 1)\<close>, above the largest
  index 1. The constructor takes the floor for the centre tile, while \<^verbatim>\<open>start\<close> clamps
  its loops to \<^verbatim>\<open>maxTiles\<close>: the session constructed there with no blocks has the centre
  tile \<open>(2, 1)\<close>, and \<^verbatim>\<open>start\<close> attempts no tile at all.
\<close>

theorem east_edge_is_outside_grid:
  "latLonToTileCoords (Finite 0) (Finite 180) 0 = Inr (Finite 1, Finite (1 / 2))
   \<and> \<not> valid_index 0 (Finite 1)
   \<and> latLonToTileCoords (Finite 0) (Finite 180) 1 = Inr (Finite 2, Finite 1)
   \<and> \<not> valid_index 1 (Finite 2)
   \<and> snd (TileLoader_ctor length_hash (empty_world not_found) ''u'' (Finite 0) (Finite 180) 1 0)
       = Inr edge_session
   \<and> m_center_tile_x edge_session = 2
   \<and> sint (maxTiles edge_session) = 1
   \<and> attempted edge_session = Some []"
  by (simp add: east_edge_coords east_edge_ctor east_edge_attempted valid_index_def)
    (simp add: edge_session_def session_def maxTiles_def)

end
